theory Spec2Isabelle
  imports Complex_Main "HOL-Library.Sublist" "HOL-Library.Product_Lexorder"
begin

section \<open>The finance tracker's command interpreter and ledger\<close>

text \<open>
  The repository keeps successive snapshots of one module, \<^verbatim>\<open>backend/main.py\<close>.
  Two of them are embedded here. The snapshot \<^verbatim>\<open>main_20250909155147.py\<close> holds
  every component the specification describes: the classifier with its
  lookup-by-id rule, the budget upsert, the budget check after an addition, and the
  calendar arithmetic of the recurrence scheduler. Unless a definition says
  otherwise, it embeds the function of that name of this snapshot. The later
  snapshot \<^verbatim>\<open>main_20250909235636.py\<close> has the edit operation, which the earlier
  one lacks, a shorter classifier, a budget endpoint that only inserts, and a
  scheduler it marks as naive; its functions are embedded under names ending in
  \<open>_235636\<close> (the edit operation under its own name), so that the two snapshots can
  be compared.

  Conventions of the embedding.
  \<^item> Text is a \<open>string\<close> of ASCII characters; \<open>lower\<close>, \<open>strip\<close>, \<open>isdigit\<close> and the
    character classes of the regular expressions are Python's on ASCII text.
  \<^item> A \<^verbatim>\<open>Float\<close> column or a Python \<^verbatim>\<open>float\<close> holds an IEEE 754 double. A stored
    amount is the rational number a finite double denotes; the arithmetic on
    amounts rounds every result to the nearest double and can overflow to an
    infinity.
  \<^item> The SQLite database is a record of four tables, each a list of rows in row-id
    order; every endpoint takes the store and returns the store it leaves behind.
  \<^item> A raised exception is the left summand of the result, and leaves the store as
    it was (nothing was committed).
  \<^item> The clock (\<^verbatim>\<open>datetime.utcnow()\<close>, \<^verbatim>\<open>date.today()\<close>) is an argument.
\<close>

subsection \<open>Characters and strings\<close>

definition is_digit :: "char \<Rightarrow> bool" where
  "is_digit c = (c \<in> set ''0123456789'')"

text \<open>Python's \<^verbatim>\<open>str.isspace\<close> on ASCII: tab, line feed, vertical tab, form feed,
  carriage return, the four separators 0x1C to 0x1F, and the space.\<close>

definition is_space :: "char \<Rightarrow> bool" where
  "is_space c = (c \<in> set [CHR 0x09, CHR 0x0A, CHR 0x0B, CHR 0x0C, CHR 0x0D,
                           CHR 0x1C, CHR 0x1D, CHR 0x1E, CHR 0x1F, CHR '' ''])"

definition is_alpha :: "char \<Rightarrow> bool" where
  "is_alpha c = (c \<in> set ''abcdefghijklmnopqrstuvwxyzABCDEFGHIJKLMNOPQRSTUVWXYZ'')"

text \<open>The class \<^verbatim>\<open>\w\<close> of a regular expression: letters, digits and the underscore.\<close>

definition is_word :: "char \<Rightarrow> bool" where
  "is_word c = (is_alpha c \<or> is_digit c \<or> c = CHR ''_'')"

definition lower_char :: "char \<Rightarrow> char" where
  "lower_char c =
     (case map_of (zip ''ABCDEFGHIJKLMNOPQRSTUVWXYZ'' ''abcdefghijklmnopqrstuvwxyz'') c of
        Some l \<Rightarrow> l
      | None \<Rightarrow> c)"

definition lower :: "string \<Rightarrow> string" where
  "lower s = map lower_char s"

definition strip :: "string \<Rightarrow> string" where
  "strip s = rev (dropWhile is_space (rev (dropWhile is_space s)))"

text \<open>\<^verbatim>\<open>sub in text\<close>: \<open>sub\<close> occurs in \<open>text\<close> as a contiguous substring.\<close>

fun contains :: "string \<Rightarrow> string \<Rightarrow> bool" where
  "contains sub [] = (sub = [])"
| "contains sub (c # cs) = (prefix sub (c # cs) \<or> contains sub cs)"

text \<open>\<^verbatim>\<open>s.isdigit()\<close> on ASCII text: non-empty and digits only.\<close>

definition isdigit :: "string \<Rightarrow> bool" where
  "isdigit s = (s \<noteq> [] \<and> list_all is_digit s)"

definition digit_val :: "char \<Rightarrow> nat" where
  "digit_val c = of_char c - 48"

text \<open>\<^verbatim>\<open>int(s)\<close> on a string of ASCII digits.\<close>

definition int_of_digits :: "string \<Rightarrow> nat" where
  "int_of_digits s = fold (\<lambda>c n. 10 * n + digit_val c) s 0"

subsection \<open>Dates and timestamps\<close>

record date =
  year :: nat
  month :: nat
  day :: nat

text \<open>A \<^verbatim>\<open>datetime\<close> is a date and a time of day, the latter counted in
  microseconds since midnight.\<close>

record datetime =
  dt_date :: date
  dt_usec :: nat

text \<open>Python compares dates as the triples (year, month, day), and timestamps as
  the date followed by the time of day; the order on tuples is the lexicographic one.\<close>

definition date_key :: "date \<Rightarrow> nat \<times> nat \<times> nat" where
  "date_key d = (year d, month d, day d)"

definition date_le :: "date \<Rightarrow> date \<Rightarrow> bool" where
  "date_le a b = (date_key a \<le> date_key b)"

definition date_less :: "date \<Rightarrow> date \<Rightarrow> bool" where
  "date_less a b = (date_key a < date_key b)"

definition datetime_key :: "datetime \<Rightarrow> (nat \<times> nat \<times> nat) \<times> nat" where
  "datetime_key t = (date_key (dt_date t), dt_usec t)"

definition datetime_le :: "datetime \<Rightarrow> datetime \<Rightarrow> bool" where
  "datetime_le a b = (datetime_key a \<le> datetime_key b)"

subsection \<open>Double precision\<close>

text \<open>
  The value of a Python \<^verbatim>\<open>float\<close>: a finite double, which is the rational number it
  denotes (the two zeros are one value), one of the two infinities, or a NaN.
\<close>

datatype fl = Fin rat | PInf | NInf | NaN

text \<open>The number of binary digits of a positive integer, and the powers of 2 with an
  integer exponent.\<close>

function bitlen :: "int \<Rightarrow> int" where
  "bitlen n = (if n \<le> 0 then 0 else 1 + bitlen (n div 2))"
  by pat_completeness auto

termination
  by (relation "measure nat") auto

declare bitlen.simps [simp del]

definition pow2 :: "int \<Rightarrow> rat" where
  "pow2 e = (if 0 \<le> e then 2 ^ nat e else 1 / 2 ^ nat (- e))"

text \<open>The binary exponent of a positive rational \<open>x\<close>: the \<open>e\<close> with
  \<open>pow2 e \<le> x < pow2 (e + 1)\<close>.\<close>

definition exponent :: "rat \<Rightarrow> int" where
  "exponent x =
     (if 1 \<le> x then bitlen \<lfloor>x\<rfloor> - 1
      else let k = bitlen \<lfloor>1 / x\<rfloor> in
           if x = pow2 (1 - k) then 1 - k else - k)"

text \<open>Rounding to the nearest integer, a tie going to the even one.\<close>

definition round_half_even :: "rat \<Rightarrow> int" where
  "round_half_even q =
     (let f = \<lfloor>q\<rfloor>; r = q - of_int f in
      if r < 1 / 2 then f else if 1 / 2 < r then f + 1 else if even f then f else f + 1)"

text \<open>
  Rounding to the nearest double, ties to the even significand. A double has 53
  significant bits, so from the exponent \<open>e\<close> on it is a multiple of \<open>pow2 (e - 52)\<close>;
  below the least normal exponent, -1022, the doubles are the multiples of
  \<open>pow2 (- 1074)\<close>. \<open>round53\<close> rounds without a largest exponent; \<open>round_double\<close> is
  the rounding of the arithmetic, where a result that rounds to \<open>pow2 1024\<close> or
  beyond is an infinity.
\<close>

definition round53 :: "rat \<Rightarrow> rat" where
  "round53 x =
     (if x = 0 then 0
      else let e = max (exponent \<bar>x\<bar>) (- 1022); u = pow2 (e - 52)
           in sgn x * (of_int (round_half_even (\<bar>x\<bar> / u)) * u))"

definition round_double :: "rat \<Rightarrow> fl" where
  "round_double x =
     (let r = round53 x in
      if pow2 1024 \<le> r then PInf else if r \<le> - pow2 1024 then NInf else Fin r)"

text \<open>The sum, the negation and the difference of two floats, the quotient of a
  float by a positive finite divisor, and the comparison \<^verbatim>\<open>x >= c\<close> with a finite
  \<open>c\<close>.\<close>

fun fl_add :: "fl \<Rightarrow> fl \<Rightarrow> fl" where
  "fl_add (Fin x) (Fin y) = round_double (x + y)"
| "fl_add NaN b = NaN"
| "fl_add a NaN = NaN"
| "fl_add PInf NInf = NaN"
| "fl_add NInf PInf = NaN"
| "fl_add PInf b = PInf"
| "fl_add a PInf = PInf"
| "fl_add NInf b = NInf"
| "fl_add a NInf = NInf"

fun fl_neg :: "fl \<Rightarrow> fl" where
  "fl_neg (Fin x) = Fin (- x)"
| "fl_neg PInf = NInf"
| "fl_neg NInf = PInf"
| "fl_neg NaN = NaN"

definition fl_sub :: "fl \<Rightarrow> fl \<Rightarrow> fl" where
  "fl_sub a b = fl_add a (fl_neg b)"

fun fl_div :: "fl \<Rightarrow> rat \<Rightarrow> fl" where
  "fl_div (Fin x) m = round_double (x / m)"
| "fl_div PInf m = PInf"
| "fl_div NInf m = NInf"
| "fl_div NaN m = NaN"

fun fl_ge :: "fl \<Rightarrow> rat \<Rightarrow> bool" where
  "fl_ge (Fin x) c = (c \<le> x)"
| "fl_ge PInf c = True"
| "fl_ge NInf c = False"
| "fl_ge NaN c = False"

text \<open>
  \<^verbatim>\<open>sum(...)\<close> over amounts: starting from 0, the amounts are added from the left and
  every partial sum is rounded. This is the loop of CPython up to version 3.11; from
  3.12 on \<^verbatim>\<open>sum\<close> carries a correction term along, which gives the same result for
  one or two amounts and can differ in the last bit for more.
\<close>

definition py_sum :: "rat list \<Rightarrow> fl" where
  "py_sum xs = foldl (\<lambda>acc x. fl_add acc (Fin x)) (Fin 0) xs"

subsection \<open>The regular expressions of the command parser\<close>

text \<open>
  \<^verbatim>\<open>re.search(r"(\d+(\.\d{1,2})?)", text)\<close>: the leftmost digit starts the match, the
  whole run of digits is taken, and a dot followed by one or two digits is taken
  with it. The result is the pair of the integer digits and the fraction digits.
\<close>

definition re_amount :: "string \<Rightarrow> (string \<times> string) option" where
  "re_amount s =
     (let r = dropWhile (\<lambda>c. \<not> is_digit c) s in
      if r = [] then None
      else
        let ip = takeWhile is_digit r;
            r2 = dropWhile is_digit r
        in (case r2 of
              d # f1 # rest \<Rightarrow>
                if d = CHR ''.'' \<and> is_digit f1
                then Some (ip, f1 # (case rest of
                                      f2 # _ \<Rightarrow> if is_digit f2 then [f2] else []
                                    | [] \<Rightarrow> []))
                else Some (ip, [])
            | _ \<Rightarrow> Some (ip, [])))"

text \<open>
  \<^verbatim>\<open>float(m.group())\<close> of such a match: the double nearest to the decimal the match
  spells. A numeral of more than 308 digits lies beyond the finite doubles and is
  \<^verbatim>\<open>inf\<close> in Python; an amount is a rational number here, and such a numeral keeps
  its rounded value.
\<close>

definition float_of_match :: "string \<times> string \<Rightarrow> rat" where
  "float_of_match m =
     round53 (of_nat (int_of_digits (fst m))
              + of_nat (int_of_digits (snd m)) / 10 ^ length (snd m))"

definition extract_amount :: "string \<Rightarrow> rat option" where
  "extract_amount s = map_option float_of_match (re_amount s)"

text \<open>
  \<^verbatim>\<open>re.search(r"(?:on|for)\s+([a-zA-Z0-9 _-]+)", text)\<close>. After the keyword, \<^verbatim>\<open>\s+\<close>
  first takes the whole run of white space and gives characters back one at a time
  while the group cannot start; the group then takes the longest run of its class.
\<close>

definition is_cat_char :: "char \<Rightarrow> bool" where
  "is_cat_char c = (is_alpha c \<or> is_digit c \<or> c \<in> set '' _-'')"

definition cat_group :: "string \<Rightarrow> string option" where
  "cat_group s =
     (let n = length (takeWhile is_space s) in
      case filter (\<lambda>k. case drop k s of [] \<Rightarrow> False | c # _ \<Rightarrow> is_cat_char c)
                  (rev [1..<Suc n]) of
        [] \<Rightarrow> None
      | k # _ \<Rightarrow> Some (takeWhile is_cat_char (drop k s)))"

fun match_keywords :: "string list \<Rightarrow> string \<Rightarrow> string option" where
  "match_keywords [] s = None"
| "match_keywords (kw # kws) s =
     (if prefix kw s
      then (case cat_group (drop (length kw) s) of
              Some g \<Rightarrow> Some g
            | None \<Rightarrow> match_keywords kws s)
      else match_keywords kws s)"

fun re_category :: "string list \<Rightarrow> string \<Rightarrow> string option" where
  "re_category kws [] = None"
| "re_category kws (c # cs) =
     (case match_keywords kws (c # cs) of
        Some g \<Rightarrow> Some g
      | None \<Rightarrow> re_category kws cs)"

subsection \<open>The intent classifier\<close>

text \<open>\<^verbatim>\<open>parse_command\<close>, lines 75 to 98 of \<^verbatim>\<open>main_20250909155147.py\<close>. The
  dictionary it returns is a value of \<open>parsed\<close>: an addition carries the amount, the
  category, the description and the date; a lookup carries the id. On a string
  \<^verbatim>\<open>(text or "")\<close> is the string itself.\<close>

datatype parsed =
    P_add "rat option" string string datetime
  | P_add_income "rat option" string string datetime
  | P_summary
  | P_list
  | P_delete
  | P_get_tx nat
  | P_unknown

fun intent :: "parsed \<Rightarrow> string" where
  "intent (P_add a c d t) = ''add''"
| "intent (P_add_income a c d t) = ''add_income''"
| "intent P_summary = ''summary''"
| "intent P_list = ''list''"
| "intent P_delete = ''delete''"
| "intent (P_get_tx n) = ''get_tx''"
| "intent P_unknown = ''unknown''"

definition parse_command :: "datetime \<Rightarrow> string \<Rightarrow> parsed" where
  "parse_command utcnow text0 =
     (let text = lower text0 in
      if contains ''spent'' text \<or> contains ''bought'' text \<or> contains ''pay'' text
         \<or> contains ''purchase'' text
      then P_add (extract_amount text)
                 (case re_category [''on'', ''for''] text of
                    Some g \<Rightarrow> strip g | None \<Rightarrow> ''general'')
                 text utcnow
      else if contains ''earned'' text \<or> contains ''salary'' text \<or> contains ''received'' text
      then P_add_income (extract_amount text)
                 (case re_category [''from'', ''for''] text of
                    Some g \<Rightarrow> strip g | None \<Rightarrow> ''income'')
                 text utcnow
      else if contains ''summary'' text \<or> contains ''balance'' text then P_summary
      else if contains ''list'' text \<or> contains ''transactions'' text then P_list
      else if contains ''delete'' text \<or> contains ''remove'' text then P_delete
      else if isdigit (strip text) \<and> length (strip text) < 7
      then P_get_tx (int_of_digits (strip text))
      else P_unknown)"

subsection \<open>The ledger store\<close>

text \<open>The four tables of the SQLAlchemy models. A row's fields carry the table's
  initial as a prefix, since the classes share their column names.\<close>

record transaction =
  tx_id :: nat
  tx_amount :: rat
  tx_category :: string
  tx_description :: string
  tx_ts :: datetime
  tx_is_expense :: bool
  tx_recurring_id :: "nat option"

record budget =
  b_id :: nat
  b_category :: string
  b_monthly_amount :: rat
  b_currency :: string

record goal =
  g_id :: nat
  g_title :: string
  g_target_amount :: rat
  g_start_date :: date
  g_end_date :: "date option"

text \<open>\<^verbatim>\<open>next_run\<close> is a nullable column: \<open>None\<close> is SQL's \<^verbatim>\<open>NULL\<close>.\<close>

record recurring =
  r_id :: nat
  r_description :: string
  r_amount :: rat
  r_category :: string
  r_is_expense :: bool
  r_interval :: string
  r_next_run :: "date option"

record store =
  transactions :: "transaction list"
  budgets :: "budget list"
  goals :: "goal list"
  recurrings :: "recurring list"

definition empty_store :: store where
  "empty_store = \<lparr>transactions = [], budgets = [], goals = [], recurrings = []\<rparr>"

text \<open>An integer primary key of SQLite: a new row gets one more than the largest
  id of the table, and 1 in an empty table.\<close>

definition new_id :: "nat list \<Rightarrow> nat" where
  "new_id ids = Suc (fold max ids 0)"

datatype exn = HTTPException nat string | ValueError | OverflowError | NameError

subsection \<open>The command endpoint\<close>

text \<open>The budget warning is the pair of figures the message prints, the spending
  as it was summed and the monthly amount, tagged with which of the two messages it
  is; the JSON responses are the constructors of \<open>outcome\<close>.\<close>

datatype warning =
    Budget_exceeded string fl rat
  | Budget_near_limit string fl rat

datatype outcome =
    Need_amount string string
  | Added nat rat string bool "warning option"
  | Summary_out rat rat rat
  | Transactions_out "transaction list"
  | Transaction_out transaction
  | Deleted nat
  | Not_understood parsed

text \<open>
  \<^verbatim>\<open>re.search(r"\b(\d{1,6})\b", text)\<close>, on the text as typed. A match starts at a
  digit that no word character precedes, takes the whole run of digits, and needs
  the run to be at most six long and followed by no word character. The flag says
  whether the character before the current position is a word character.
\<close>

fun re_delete_id_from :: "bool \<Rightarrow> string \<Rightarrow> string option" where
  "re_delete_id_from prev [] = None"
| "re_delete_id_from prev (c # cs) =
     (if \<not> prev \<and> is_digit c
         \<and> length (takeWhile is_digit (c # cs)) \<le> 6
         \<and> (case dropWhile is_digit (c # cs) of [] \<Rightarrow> True | x # _ \<Rightarrow> \<not> is_word x)
      then Some (takeWhile is_digit (c # cs))
      else re_delete_id_from (is_word c) cs)"

definition re_delete_id :: "string \<Rightarrow> string option" where
  "re_delete_id s = re_delete_id_from False s"

text \<open>The month-to-date spending of a category, lines 122 to 128: the sum of the
  amounts of the expense rows of the category whose timestamp is on or after the
  first instant of the current month. The budget check, lines 129 to 136, divides
  it by the monthly amount of the first budget of the category, if that amount is
  positive, and compares the quotient with the doubles 1.0 and 0.85.\<close>

definition month_start :: "datetime \<Rightarrow> datetime" where
  "month_start now =
     \<lparr>dt_date = \<lparr>year = year (dt_date now), month = month (dt_date now), day = 1\<rparr>,
      dt_usec = 0\<rparr>"

definition month_spent :: "store \<Rightarrow> string \<Rightarrow> datetime \<Rightarrow> fl" where
  "month_spent s cat now =
     py_sum (map tx_amount
       (filter (\<lambda>r. tx_category r = cat \<and> tx_is_expense r
                     \<and> datetime_le (month_start now) (tx_ts r))
               (transactions s)))"

definition budget_warning :: "store \<Rightarrow> string \<Rightarrow> datetime \<Rightarrow> warning option" where
  "budget_warning s cat now =
     (let spent = month_spent s cat now in
      case find (\<lambda>b. b_category b = cat) (budgets s) of
        None \<Rightarrow> None
      | Some b \<Rightarrow>
          let pct = (if b_monthly_amount b > 0 then fl_div spent (b_monthly_amount b)
                     else Fin 0) in
          if fl_ge pct 1 then Some (Budget_exceeded cat spent (b_monthly_amount b))
          else if fl_ge pct (round53 (85 / 100))
          then Some (Budget_near_limit cat spent (b_monthly_amount b))
          else None)"

text \<open>The branch of the two adding intents: without an amount it answers
  \<^verbatim>\<open>need_amount\<close> and stores nothing; with one it inserts the row, commits, and
  checks the budget of the row's category against the clock read after the commit.\<close>

definition add_branch ::
  "bool \<Rightarrow> rat option \<Rightarrow> string \<Rightarrow> string \<Rightarrow> datetime \<Rightarrow> datetime \<Rightarrow> store
     \<Rightarrow> (exn + outcome) \<times> store" where
  "add_branch is_exp amt cat descr dt now s =
     (case amt of
        None \<Rightarrow> (Inr (Need_amount descr cat), s)
      | Some a \<Rightarrow>
          let tx = \<lparr>tx_id = new_id (map tx_id (transactions s)), tx_amount = a,
                    tx_category = cat, tx_description = descr, tx_ts = dt,
                    tx_is_expense = is_exp, tx_recurring_id = None\<rparr>;
              s' = s\<lparr>transactions := transactions s @ [tx]\<rparr>
          in (Inr (Added (tx_id tx) (tx_amount tx) (tx_category tx) (tx_is_expense tx)
                     (budget_warning s' (tx_category tx) now)), s'))"

text \<open>\<^verbatim>\<open>order_by(Transaction.ts.desc()).limit(200)\<close>: the rows by falling timestamp.
  SQL leaves the order of rows of equal timestamp open; SQLite's sorter keeps them
  in the order of the table, the earlier row first.\<close>

definition recent :: "nat \<Rightarrow> transaction list \<Rightarrow> transaction list" where
  "recent n rows = take n (rev (sort_key (\<lambda>r. datetime_key (tx_ts r)) (rev rows)))"

text \<open>
  The answer of the summary, lines 144 to 149: the two sums and their difference.
  \<^verbatim>\<open>JSONResponse\<close> encodes with \<^verbatim>\<open>allow_nan=False\<close>, so a figure that is no finite
  double makes it raise a \<^verbatim>\<open>ValueError\<close>.
\<close>

definition summary_answer :: "transaction list \<Rightarrow> exn + outcome" where
  "summary_answer rows =
     (let total_income = py_sum (map tx_amount (filter (\<lambda>r. \<not> tx_is_expense r) rows));
          total_expense = py_sum (map tx_amount (filter (\<lambda>r. tx_is_expense r) rows));
          balance = fl_sub total_income total_expense
      in case (total_income, total_expense, balance) of
           (Fin i, Fin e, Fin b) \<Rightarrow> Inr (Summary_out i e b)
         | _ \<Rightarrow> Inl ValueError)"

text \<open>
  \<^verbatim>\<open>handle_command(payload)\<close>, lines 101 to 177. The first argument is
  \<^verbatim>\<open>payload.get("text")\<close>, absent or a string; \<open>utcnow\<close> is the clock
  \<^verbatim>\<open>parse_command\<close> reads and \<open>now\<close> the clock read for the budget check. The
  deletion removes the rows whose primary key is the id found.
\<close>

definition handle_command ::
  "string option \<Rightarrow> datetime \<Rightarrow> datetime \<Rightarrow> store \<Rightarrow> (exn + outcome) \<times> store" where
  "handle_command payload_text utcnow now s =
     (case payload_text of
        None \<Rightarrow> (Inl (HTTPException 400 ''text required''), s)
      | Some text \<Rightarrow>
          if text = [] then (Inl (HTTPException 400 ''text required''), s)
          else
            (case parse_command utcnow text of
               P_add amt cat descr dt \<Rightarrow> add_branch True amt cat descr dt now s
             | P_add_income amt cat descr dt \<Rightarrow> add_branch False amt cat descr dt now s
             | P_summary \<Rightarrow> (summary_answer (transactions s), s)
             | P_list \<Rightarrow> (Inr (Transactions_out (recent 200 (transactions s))), s)
             | P_get_tx txid \<Rightarrow>
                 (case find (\<lambda>r. tx_id r = txid) (transactions s) of
                    None \<Rightarrow> (Inl (HTTPException 404 ''transaction not found''), s)
                  | Some tx \<Rightarrow> (Inr (Transaction_out tx), s))
             | P_delete \<Rightarrow>
                 (case re_delete_id text of
                    None \<Rightarrow> (Inl (HTTPException 400 ''no id found to delete''), s)
                  | Some m \<Rightarrow>
                      let txid = int_of_digits m in
                      (case find (\<lambda>r. tx_id r = txid) (transactions s) of
                         None \<Rightarrow> (Inl (HTTPException 404 ''transaction not found''), s)
                       | Some tx \<Rightarrow>
                           (Inr (Deleted txid),
                            s\<lparr>transactions :=
                                 filter (\<lambda>r. tx_id r \<noteq> tx_id tx) (transactions s)\<rparr>)))
             | P_unknown \<Rightarrow> (Inr (Not_understood P_unknown), s)))"

subsection \<open>The budget endpoint\<close>

text \<open>\<^verbatim>\<open>create_budget\<close>, lines 189 to 202: the request body \<^verbatim>\<open>BudgetIn\<close> and the
  two answers, each with the id of the row it touched.\<close>

record budget_in =
  in_category :: string
  in_monthly_amount :: rat
  in_currency :: string

datatype budget_action = Budget_updated nat | Budget_created nat

text \<open>Assigning to the fields of the row a query returned changes that row of the
  table: the first one the query's condition selects.\<close>

fun update_first :: "('a \<Rightarrow> bool) \<Rightarrow> ('a \<Rightarrow> 'a) \<Rightarrow> 'a list \<Rightarrow> 'a list" where
  "update_first P f [] = []"
| "update_first P f (x # xs) = (if P x then f x # xs else x # update_first P f xs)"

definition create_budget :: "budget_in \<Rightarrow> store \<Rightarrow> budget_action \<times> store" where
  "create_budget b s =
     (case find (\<lambda>x. b_category x = in_category b) (budgets s) of
        Some existing \<Rightarrow>
          (Budget_updated (b_id existing),
           s\<lparr>budgets :=
               update_first (\<lambda>x. b_category x = in_category b)
                 (\<lambda>x. x\<lparr>b_monthly_amount := in_monthly_amount b,
                          b_currency := in_currency b\<rparr>)
                 (budgets s)\<rparr>)
      | None \<Rightarrow>
          let nb = \<lparr>b_id = new_id (map b_id (budgets s)), b_category = in_category b,
                    b_monthly_amount = in_monthly_amount b, b_currency = in_currency b\<rparr>
          in (Budget_created (b_id nb), s\<lparr>budgets := budgets s @ [nb]\<rparr>))"

subsection \<open>Calendar arithmetic\<close>

text \<open>\<^verbatim>\<open>calendar.isleap\<close>, and the second component of \<^verbatim>\<open>calendar.monthrange\<close>: the
  number of days of a month, from the table 31, 28, 31, 30, 31, 30, 31, 31, 30, 31,
  30, 31 with one more day for the February of a leap year.\<close>

definition isleap :: "nat \<Rightarrow> bool" where
  "isleap y = (y mod 4 = 0 \<and> (y mod 100 \<noteq> 0 \<or> y mod 400 = 0))"

definition monthrange_days :: "nat \<Rightarrow> nat \<Rightarrow> nat" where
  "monthrange_days y m =
     (if m = 2 then (if isleap y then 29 else 28)
      else if m = 4 \<or> m = 6 \<or> m = 9 \<or> m = 11 then 30
      else 31)"

text \<open>The dates Python can build: years 1 to 9999, months 1 to 12, and a day the
  month has.\<close>

definition valid_date :: "date \<Rightarrow> bool" where
  "valid_date d =
     (1 \<le> year d \<and> year d \<le> 9999 \<and> 1 \<le> month d \<and> month d \<le> 12
      \<and> 1 \<le> day d \<and> day d \<le> monthrange_days (year d) (month d))"

text \<open>The proleptic Gregorian ordinal of a date (\<^verbatim>\<open>date.toordinal\<close>): the days of
  the years before, of the months before, and the day of the month.\<close>

definition days_before_year :: "nat \<Rightarrow> int" where
  "days_before_year y =
     (int y - 1) * 365 + (int y - 1) div 4 - (int y - 1) div 100 + (int y - 1) div 400"

definition days_before_month :: "nat \<Rightarrow> nat \<Rightarrow> int" where
  "days_before_month y m = int (sum_list (map (monthrange_days y) [1..<m]))"

definition toordinal :: "date \<Rightarrow> int" where
  "toordinal d = days_before_year (year d) + days_before_month (year d) (month d) + int (day d)"

text \<open>The day after a date, and the date a number of days later.\<close>

definition next_day :: "date \<Rightarrow> date" where
  "next_day d =
     (if day d < monthrange_days (year d) (month d) then d\<lparr>day := day d + 1\<rparr>
      else if month d < 12 then \<lparr>year = year d, month = month d + 1, day = 1\<rparr>
      else \<lparr>year = year d + 1, month = 1, day = 1\<rparr>)"

primrec add_days :: "nat \<Rightarrow> date \<Rightarrow> date" where
  "add_days 0 d = d"
| "add_days (Suc n) d = add_days n (next_day d)"

text \<open>\<^verbatim>\<open>d + timedelta(weeks=1)\<close>: the date seven days later, or an
  \<^verbatim>\<open>OverflowError\<close> past the last day of the year 9999.\<close>

definition add_week :: "date \<Rightarrow> exn + date" where
  "add_week d =
     (let d' = add_days 7 d in
      if year d' > 9999 then Inl OverflowError else Inr d')"

text \<open>The monthly step of the scheduler, lines 317 to 320: the following month, in
  the following year after a December, on the same day of the month or on the
  month's last day if it is shorter; \<^verbatim>\<open>date(y, m, day)\<close> raises a \<^verbatim>\<open>ValueError\<close>
  for a year past 9999.\<close>

definition add_month :: "date \<Rightarrow> exn + date" where
  "add_month d =
     (let y = year d + (if month d = 12 then 1 else 0);
          m = (if month d = 12 then 1 else month d + 1);
          dd = min (day d) (monthrange_days y m)
      in if y > 9999 then Inl ValueError else Inr \<lparr>year = y, month = m, day = dd\<rparr>)"

subsection \<open>The recurrence scheduler\<close>

text \<open>The rows the query \<^verbatim>\<open>next_run <= today\<close> selects; a \<^verbatim>\<open>NULL\<close> is never
  selected.\<close>

definition is_due :: "date \<Rightarrow> recurring \<Rightarrow> bool" where
  "is_due today r = (case r_next_run r of None \<Rightarrow> False | Some d \<Rightarrow> date_le d today)"

definition advance_next_run :: "recurring \<Rightarrow> date \<Rightarrow> exn + date" where
  "advance_next_run r d = (if r_interval r = ''monthly'' then add_month d else add_week d)"

text \<open>The transaction a due rule yields, dated at the midnight that begins the
  rule's \<^verbatim>\<open>next_run\<close>.\<close>

definition recurring_tx :: "nat \<Rightarrow> recurring \<Rightarrow> date \<Rightarrow> transaction" where
  "recurring_tx i r d =
     \<lparr>tx_id = i, tx_amount = r_amount r, tx_category = r_category r,
      tx_description = ''[recurring] '' @ r_description r,
      tx_ts = \<lparr>dt_date = d, dt_usec = 0\<rparr>,
      tx_is_expense = r_is_expense r, tx_recurring_id = Some (r_id r)\<rparr>"

text \<open>
  The loop of \<^verbatim>\<open>run_due_recurrences\<close>, lines 301 to 325, run along the table: a row the query does
  not select is passed over; for a selected row the transaction is added to the
  session under the next free id and the row's \<^verbatim>\<open>next_run\<close> is moved. The result
  holds the new transactions, the table as the commit will write it, and the
  \<^verbatim>\<open>created\<close> list of the answer (rule id, amount, category). An exception of the
  date arithmetic ends the request before the commit.
\<close>

fun run_due_loop ::
  "date \<Rightarrow> nat \<Rightarrow> recurring list
     \<Rightarrow> exn + (transaction list \<times> recurring list \<times> (nat \<times> rat \<times> string) list)" where
  "run_due_loop today i [] = Inr ([], [], [])"
| "run_due_loop today i (r # rs) =
     (case r_next_run r of
        None \<Rightarrow>
          (case run_due_loop today i rs of
             Inl e \<Rightarrow> Inl e
           | Inr (txs, rs', created) \<Rightarrow> Inr (txs, r # rs', created))
      | Some d \<Rightarrow>
          if date_le d today
          then (case advance_next_run r d of
                  Inl e \<Rightarrow> Inl e
                | Inr d' \<Rightarrow>
                    (case run_due_loop today (Suc i) rs of
                       Inl e \<Rightarrow> Inl e
                     | Inr (txs, rs', created) \<Rightarrow>
                         Inr (recurring_tx i r d # txs,
                              r\<lparr>r_next_run := Some d'\<rparr> # rs',
                              (r_id r, r_amount r, r_category r) # created)))
          else (case run_due_loop today i rs of
                  Inl e \<Rightarrow> Inl e
                | Inr (txs, rs', created) \<Rightarrow> Inr (txs, r # rs', created)))"

definition run_due_recurrences ::
  "date \<Rightarrow> store \<Rightarrow> (exn + (nat \<times> rat \<times> string) list) \<times> store" where
  "run_due_recurrences today s =
     (case run_due_loop today (new_id (map tx_id (transactions s))) (recurrings s) of
        Inl e \<Rightarrow> (Inl e, s)
      | Inr (txs, rs', created) \<Rightarrow>
          (Inr created, s\<lparr>transactions := transactions s @ txs, recurrings := rs'\<rparr>))"

subsection \<open>The edit endpoint of the snapshot of 23:56:36\<close>

text \<open>\<^verbatim>\<open>edit_transaction(payload: EditRequest)\<close> of \<^verbatim>\<open>main_20250909235636.py\<close>,
  lines 178 to 191: the description, the amount and the expense flag of the row with
  the given id are replaced by the request's; the answer is the id.\<close>

record edit_request =
  e_id :: nat
  e_description :: string
  e_amount :: rat
  e_is_expense :: bool

definition edit_transaction :: "edit_request \<Rightarrow> store \<Rightarrow> (exn + nat) \<times> store" where
  "edit_transaction payload s =
     (case find (\<lambda>r. tx_id r = e_id payload) (transactions s) of
        None \<Rightarrow> (Inl (HTTPException 404 ''transaction not found''), s)
      | Some tx \<Rightarrow>
          (Inr (tx_id tx),
           s\<lparr>transactions :=
               update_first (\<lambda>r. tx_id r = e_id payload)
                 (\<lambda>r. r\<lparr>tx_description := e_description payload,
                          tx_amount := e_amount payload,
                          tx_is_expense := e_is_expense payload\<rparr>)
                 (transactions s)\<rparr>))"

subsection \<open>The command endpoint of the snapshot of 23:56:36\<close>

text \<open>
  \<^verbatim>\<open>parse_command\<close> of \<^verbatim>\<open>main_20250909235636.py\<close>, lines 63 to 89: the same
  order of rules with fewer words (no \<^verbatim>\<open>purchase\<close>), the fixed categories
  \<^verbatim>\<open>expense\<close> and \<^verbatim>\<open>income\<close>, and no lookup by id.
\<close>

definition parse_command_235636 :: "datetime \<Rightarrow> string \<Rightarrow> parsed" where
  "parse_command_235636 utcnow text0 =
     (let text = lower text0 in
      if contains ''spent'' text \<or> contains ''bought'' text \<or> contains ''pay'' text
      then P_add (extract_amount text) ''expense'' text utcnow
      else if contains ''earned'' text \<or> contains ''salary'' text \<or> contains ''received'' text
      then P_add_income (extract_amount text) ''income'' text utcnow
      else if contains ''summary'' text \<or> contains ''balance'' text then P_summary
      else if contains ''list'' text \<or> contains ''transactions'' text then P_list
      else if contains ''delete'' text \<or> contains ''remove'' text then P_delete
      else P_unknown)"

text \<open>
  \<^verbatim>\<open>handle_command\<close> of that snapshot, lines 93 to 175. The payload is a
  \<^verbatim>\<open>CommandRequest\<close>, whose text is a string, possibly empty; an addition is followed
  by no budget check; the listing is limited to 50 rows; every other intent gets the
  answer \<^verbatim>\<open>Could not understand intent\<close>. The transactions of that snapshot have
  no \<^verbatim>\<open>recurring_id\<close> column: the field stays \<open>None\<close>.
\<close>

definition add_branch_235636 ::
  "bool \<Rightarrow> rat option \<Rightarrow> string \<Rightarrow> string \<Rightarrow> datetime \<Rightarrow> store
     \<Rightarrow> (exn + outcome) \<times> store" where
  "add_branch_235636 is_exp amt cat descr dt s =
     (case amt of
        None \<Rightarrow> (Inr (Need_amount descr cat), s)
      | Some a \<Rightarrow>
          let tx = \<lparr>tx_id = new_id (map tx_id (transactions s)), tx_amount = a,
                    tx_category = cat, tx_description = descr, tx_ts = dt,
                    tx_is_expense = is_exp, tx_recurring_id = None\<rparr>
          in (Inr (Added (tx_id tx) (tx_amount tx) (tx_category tx) (tx_is_expense tx) None),
              s\<lparr>transactions := transactions s @ [tx]\<rparr>))"

definition handle_command_235636 ::
  "string \<Rightarrow> datetime \<Rightarrow> store \<Rightarrow> (exn + outcome) \<times> store" where
  "handle_command_235636 text utcnow s =
     (case parse_command_235636 utcnow text of
        P_add amt cat descr dt \<Rightarrow> add_branch_235636 True amt cat descr dt s
      | P_add_income amt cat descr dt \<Rightarrow> add_branch_235636 False amt cat descr dt s
      | P_summary \<Rightarrow> (summary_answer (transactions s), s)
      | P_list \<Rightarrow> (Inr (Transactions_out (recent 50 (transactions s))), s)
      | P_delete \<Rightarrow>
          (case re_delete_id text of
             None \<Rightarrow> (Inl (HTTPException 400 ''no id found to delete''), s)
           | Some m \<Rightarrow>
               let txid = int_of_digits m in
               (case find (\<lambda>r. tx_id r = txid) (transactions s) of
                  None \<Rightarrow> (Inl (HTTPException 404 ''transaction not found''), s)
                | Some tx \<Rightarrow>
                    (Inr (Deleted txid),
                     s\<lparr>transactions :=
                          filter (\<lambda>r. tx_id r \<noteq> tx_id tx) (transactions s)\<rparr>)))
      | p \<Rightarrow> (Inr (Not_understood p), s))"

subsection \<open>The budget endpoint of the snapshot of 23:56:36\<close>

text \<open>
  The \<^verbatim>\<open>Budget\<close> table of \<^verbatim>\<open>main_20250909235636.py\<close> has an id, a category and a
  monthly amount; the category is not unique. \<^verbatim>\<open>create_budget(b)\<close>, lines 289 to
  296, reads the category and the amount from the request body, inserts a row and
  answers with the row's three fields. It looks no existing row up.
\<close>

record budget_235636 =
  bb_id :: nat
  bb_category :: string
  bb_monthly_amount :: rat

definition create_budget_235636 ::
  "string \<Rightarrow> rat \<Rightarrow> budget_235636 list \<Rightarrow> budget_235636 \<times> budget_235636 list" where
  "create_budget_235636 category monthly_amount rows =
     (let budget = \<lparr>bb_id = new_id (map bb_id rows), bb_category = category,
                      bb_monthly_amount = monthly_amount\<rparr>
      in (budget, rows @ [budget]))"

subsection \<open>The scheduler of the snapshot of 23:56:36\<close>

text \<open>
  The \<^verbatim>\<open>Recurring\<close> table of \<^verbatim>\<open>main_20250909235636.py\<close>: \<^verbatim>\<open>next_run\<close> is a
  timestamp and never \<^verbatim>\<open>NULL\<close>, and there is no expense flag.
\<close>

record recurring_235636 =
  q_id :: nat
  q_description :: string
  q_amount :: rat
  q_category :: string
  q_interval :: string
  q_next_run :: datetime

text \<open>The transaction \<^verbatim>\<open>run_due\<close> builds for a rule: an expense dated at the clock
  of the request, with the rule's description as it is.\<close>

definition run_due_tx :: "nat \<Rightarrow> recurring_235636 \<Rightarrow> datetime \<Rightarrow> transaction" where
  "run_due_tx i r now =
     \<lparr>tx_id = i, tx_amount = q_amount r, tx_category = q_category r,
      tx_description = q_description r, tx_ts = now, tx_is_expense = True,
      tx_recurring_id = None\<rparr>"

text \<open>
  The loop of \<^verbatim>\<open>run_due\<close>, lines 371 to 390, over all rules: a rule whose
  \<^verbatim>\<open>next_run\<close> is not after the clock yields a transaction; then a \<^verbatim>\<open>monthly\<close> rule
  gets \<^verbatim>\<open>datetime(r.next_run.year, r.next_run.month, 1)\<close> as its \<^verbatim>\<open>next_run\<close>, the
  first midnight of the month it was in, and for a \<^verbatim>\<open>weekly\<close> rule the module
  evaluates \<^verbatim>\<open>timedelta(days=7)\<close>, a name it never imports (its only import from
  \<^verbatim>\<open>datetime\<close> is the class \<^verbatim>\<open>datetime\<close>), which raises a \<^verbatim>\<open>NameError\<close> before
  anything is committed. A rule of any other interval keeps its \<^verbatim>\<open>next_run\<close>. The
  answer lists the id and the description of each new transaction.
\<close>

fun run_due_loop_235636 ::
  "datetime \<Rightarrow> nat \<Rightarrow> recurring_235636 list
     \<Rightarrow> exn + (transaction list \<times> recurring_235636 list)" where
  "run_due_loop_235636 now i [] = Inr ([], [])"
| "run_due_loop_235636 now i (r # rs) =
     (if datetime_le (q_next_run r) now
      then if q_interval r = ''monthly''
           then (case run_due_loop_235636 now (Suc i) rs of
                   Inl e \<Rightarrow> Inl e
                 | Inr (txs, rs') \<Rightarrow>
                     Inr (run_due_tx i r now # txs,
                          r\<lparr>q_next_run :=
                              \<lparr>dt_date = \<lparr>year = year (dt_date (q_next_run r)),
                                          month = month (dt_date (q_next_run r)), day = 1\<rparr>,
                               dt_usec = 0\<rparr>\<rparr> # rs'))
           else if q_interval r = ''weekly'' then Inl NameError
           else (case run_due_loop_235636 now (Suc i) rs of
                   Inl e \<Rightarrow> Inl e
                 | Inr (txs, rs') \<Rightarrow> Inr (run_due_tx i r now # txs, r # rs'))
      else (case run_due_loop_235636 now i rs of
              Inl e \<Rightarrow> Inl e
            | Inr (txs, rs') \<Rightarrow> Inr (txs, r # rs')))"

definition run_due_235636 ::
  "datetime \<Rightarrow> transaction list \<Rightarrow> recurring_235636 list
     \<Rightarrow> (exn + (nat \<times> string) list) \<times> transaction list \<times> recurring_235636 list" where
  "run_due_235636 now txs recs =
     (case run_due_loop_235636 now (new_id (map tx_id txs)) recs of
        Inl e \<Rightarrow> (Inl e, txs, recs)
      | Inr (created, recs') \<Rightarrow>
          (Inr (map (\<lambda>t. (tx_id t, tx_description t)) created), txs @ created, recs'))"

subsection \<open>Sample data\<close>

definition t0 :: datetime where
  "t0 = \<lparr>dt_date = \<lparr>year = 2025, month = 9, day = 9\<rparr>, dt_usec = 0\<rparr>"

definition tx5 :: transaction where
  "tx5 = \<lparr>tx_id = 5, tx_amount = 20, tx_category = ''food'',
          tx_description = ''spent 20 on food'', tx_ts = t0, tx_is_expense = True,
          tx_recurring_id = None\<rparr>"

definition store5 :: store where
  "store5 = \<lparr>transactions = [tx5], budgets = [], goals = [], recurrings = []\<rparr>"

subsection \<open>The id of a deletion as the specification words it\<close>

text \<open>
  A bare numeral of at most six digits in a text: the text is \<open>pre @ m @ post\<close>,
  where \<open>m\<close> is a run of one to six digits, the character before it, if there is
  one, is no word character, and neither is the character after it. The flag
  \<open>prev\<close> says whether a word character stands before the whole text; for a text
  on its own it is \<open>False\<close>.
\<close>

definition bare_numeral :: "bool \<Rightarrow> string \<Rightarrow> string \<Rightarrow> string \<Rightarrow> bool" where
  "bare_numeral prev pre m post =
     (m \<noteq> [] \<and> length m \<le> 6 \<and> list_all is_digit m
      \<and> (if pre = [] then \<not> prev else \<not> is_word (last pre))
      \<and> (post = [] \<or> \<not> is_word (hd post)))"

subsection \<open>The classifier as the specification words it\<close>

text \<open>
  The seven rules of the specification's classifier, in its words: the lowercased
  text is tried against the expense words, the income words, \<^verbatim>\<open>summary\<close> or
  \<^verbatim>\<open>balance\<close>, the listing words, \<^verbatim>\<open>delete\<close> or \<^verbatim>\<open>remove\<close>, and the form of a
  numeral of at most six digits, in this order, and the first rule that applies
  decides. What differs between the specification and the snapshots is an
  argument: the three word lists, and whether the sixth rule, the lookup by id, is
  among the rules at all. \<open>claimed_intent\<close> is the classifier with the lists of the
  specification. \<open>classified\<close> reads the specification's intent off the dictionary
  \<^verbatim>\<open>parse_command\<close> returns (\<^verbatim>\<open>add\<close> is the expense, \<^verbatim>\<open>get_tx\<close> the lookup by id).
  \<open>is_ascii\<close> is the range of the characters the embedding speaks about.
\<close>

definition is_ascii :: "char \<Rightarrow> bool" where
  "is_ascii c = (of_char c < (128 :: nat))"

datatype spec_intent =
  Add_expense | Add_income | Summary | Listing | Delete | Get_by_id nat | Unknown

definition rules_intent ::
  "string list \<Rightarrow> string list \<Rightarrow> string list \<Rightarrow> bool \<Rightarrow> string \<Rightarrow> spec_intent" where
  "rules_intent expense_words income_words list_words lookup text0 =
     (let text = lower text0 in
      if list_ex (\<lambda>w. sublist w text) expense_words then Add_expense
      else if list_ex (\<lambda>w. sublist w text) income_words then Add_income
      else if sublist ''summary'' text \<or> sublist ''balance'' text then Summary
      else if list_ex (\<lambda>w. sublist w text) list_words then Listing
      else if sublist ''delete'' text \<or> sublist ''remove'' text then Delete
      else if lookup \<and> strip text \<noteq> [] \<and> list_all is_digit (strip text)
              \<and> length (strip text) \<le> 6
      then Get_by_id (int_of_digits (strip text))
      else Unknown)"

definition claimed_intent :: "string \<Rightarrow> spec_intent" where
  "claimed_intent =
     rules_intent [''spent'', ''bought'', ''pay'', ''paid'', ''purchase'']
                  [''earned'', ''salary'', ''received'', ''income'', ''got paid'']
                  [''list'', ''transactions'', ''show''] True"

fun classified :: "parsed \<Rightarrow> spec_intent" where
  "classified (P_add a c d t) = Add_expense"
| "classified (P_add_income a c d t) = Add_income"
| "classified P_summary = Summary"
| "classified P_list = Listing"
| "classified P_delete = Delete"
| "classified (P_get_tx n) = Get_by_id n"
| "classified P_unknown = Unknown"

subsection \<open>The step of a rule as the specification words it\<close>

text \<open>
  The date one interval after a date, in the specification's words: for the
  interval \<^verbatim>\<open>monthly\<close> the same day of the following month, or the last day of
  that month if the month is shorter; for the other interval, \<^verbatim>\<open>weekly\<close>, the date
  seven days later.
\<close>

definition one_interval_later :: "string \<Rightarrow> date \<Rightarrow> date" where
  "one_interval_later interval d =
     (if interval = ''monthly''
      then (let y = (if month d = 12 then year d + 1 else year d);
                m = (if month d = 12 then 1 else month d + 1)
            in \<lparr>year = y, month = m, day = min (day d) (monthrange_days y m)\<rparr>)
      else add_days 7 d)"

subsection \<open>Sample rules\<close>

definition today0 :: date where
  "today0 = \<lparr>year = 2025, month = 9, day = 9\<rparr>"

definition store_rules :: store where
  "store_rules =
     \<lparr>transactions = [tx5], budgets = [], goals = [],
      recurrings =
        [\<lparr>r_id = 1, r_description = ''rent'', r_amount = 900, r_category = ''rent'',
          r_is_expense = True, r_interval = ''monthly'',
          r_next_run = Some \<lparr>year = 2025, month = 1, day = 31\<rparr>\<rparr>,
         \<lparr>r_id = 2, r_description = ''gym'', r_amount = 10, r_category = ''sport'',
          r_is_expense = True, r_interval = ''weekly'',
          r_next_run = Some \<lparr>year = 2024, month = 12, day = 28\<rparr>\<rparr>,
         \<lparr>r_id = 3, r_description = ''wage'', r_amount = 2000, r_category = ''job'',
          r_is_expense = False, r_interval = ''monthly'',
          r_next_run = Some \<lparr>year = 2025, month = 9, day = 30\<rparr>\<rparr>,
         \<lparr>r_id = 4, r_description = ''loan'', r_amount = 50, r_category = ''bank'',
          r_is_expense = True, r_interval = ''monthly'',
          r_next_run = Some \<lparr>year = 2024, month = 1, day = 31\<rparr>\<rparr>]\<rparr>"

subsection \<open>Sample amounts\<close>




subsection \<open>Sample rules of the snapshot of 23:56:36\<close>

definition rent_235636 :: recurring_235636 where
  "rent_235636 =
     \<lparr>q_id = 1, q_description = ''rent'', q_amount = 900, q_category = ''rent'',
      q_interval = ''monthly'',
      q_next_run = \<lparr>dt_date = \<lparr>year = 2025, month = 1, day = 31\<rparr>, dt_usec = 0\<rparr>\<rparr>"

definition gym_235636 :: recurring_235636 where
  "gym_235636 =
     \<lparr>q_id = 2, q_description = ''gym'', q_amount = 10, q_category = ''sport'',
      q_interval = ''weekly'',
      q_next_run = \<lparr>dt_date = \<lparr>year = 2024, month = 12, day = 28\<rparr>, dt_usec = 0\<rparr>\<rparr>"

section \<open>Properties\<close>

subsection \<open>Evaluation and auxiliary facts\<close>

lemmas text_eval = lower_def lower_char_def is_digit_def is_space_def is_alpha_def is_word_def
  is_cat_char_def strip_def isdigit_def digit_val_def int_of_digits_def re_amount_def
  float_of_match_def extract_amount_def cat_group_def parse_command_def re_delete_id_def Let_def

lemmas store_eval = handle_command_def add_branch_def budget_warning_def month_spent_def
  month_start_def new_id_def empty_store_def datetime_le_def datetime_key_def date_key_def
  date_le_def date_less_def recent_def summary_answer_def py_sum_def fl_sub_def
  round_double_def pow2_def

lemma contains_iff_sublist: "contains sub s \<longleftrightarrow> sublist sub s"
  by (induction s) (auto simp: sublist_Cons_right)

lemma lower_char_digit: "is_digit (lower_char c) = is_digit c"
  by (auto simp: lower_char_def is_digit_def)

lemma lower_no_digit:
  "list_all (\<lambda>c. \<not> is_digit c) s \<Longrightarrow> dropWhile (\<lambda>c. \<not> is_digit c) (lower s) = []"
  by (induction s) (auto simp: lower_def lower_char_digit)

lemma extract_amount_no_digit:
  "list_all (\<lambda>c. \<not> is_digit c) s \<Longrightarrow> extract_amount (lower s) = None"
  by (simp add: extract_amount_def re_amount_def lower_no_digit)

lemma parse_command_Nil: "parse_command utcnow [] = P_unknown"
  by (simp add: parse_command_def lower_def isdigit_def strip_def)

lemma intent_cases:
  "intent p = ''add'' \<longleftrightarrow> (\<exists>a c d t. p = P_add a c d t)"
  "intent p = ''add_income'' \<longleftrightarrow> (\<exists>a c d t. p = P_add_income a c d t)"
  "intent p = ''summary'' \<longleftrightarrow> p = P_summary"
  "intent p = ''list'' \<longleftrightarrow> p = P_list"
  "intent p = ''delete'' \<longleftrightarrow> p = P_delete"
  "intent p = ''get_tx'' \<longleftrightarrow> (\<exists>n. p = P_get_tx n)"
  "intent p = ''unknown'' \<longleftrightarrow> p = P_unknown"
  by (cases p; simp)+

subsection \<open>Facts of the double arithmetic\<close>

lemma pow2_pos: "0 < pow2 e"
  by (simp add: pow2_def)

lemma pow2_of_nat: "pow2 (int k) = 2 ^ k"
  by (simp add: pow2_def)

lemma pow2_neg_nat: "pow2 (- int k) = 1 / 2 ^ k"
  by (cases k) (simp_all add: pow2_def nat_add_distrib)

lemma pow2_Suc: "pow2 (e + 1) = 2 * pow2 e"
proof (cases "0 \<le> e")
  case True
  then have "nat (e + 1) = Suc (nat e)" by simp
  then show ?thesis using True by (simp add: pow2_def)
next
  case False
  then obtain m where e: "e = - int (Suc m)"
    by (metis add.inverse_inverse not_le zero_less_imp_eq_int neg_0_less_iff_less Suc_pred' of_nat_0_less_iff)
  then have "e + 1 = - int m" by simp
  then show ?thesis using e by (simp only: pow2_neg_nat) simp
qed

lemma pow2_mono: "e \<le> e' \<Longrightarrow> pow2 e \<le> pow2 e'"
proof (induction e' rule: int_ge_induct)
  case base
  show ?case by simp
next
  case (step i)
  have "pow2 i \<le> 2 * pow2 i" using pow2_pos [of i] by simp
  with step show ?case by (simp add: pow2_Suc)
qed

lemma pow2_strict_mono: "e < e' \<Longrightarrow> pow2 e < pow2 e'"
proof -
  assume "e < e'"
  then have "e + 1 \<le> e'" by simp
  then have "pow2 (e + 1) \<le> pow2 e'" by (rule pow2_mono)
  moreover have "pow2 e < pow2 (e + 1)" using pow2_pos [of e] by (simp add: pow2_Suc)
  ultimately show ?thesis by simp
qed

lemma bitlen_unique: "2 ^ k \<le> n \<Longrightarrow> n < 2 ^ Suc k \<Longrightarrow> bitlen n = int k + 1"
proof (induction k arbitrary: n)
  case 0
  then have "n = 1" by simp
  then show ?case by (simp add: bitlen.simps)
next
  case (Suc k)
  have "0 < n" using Suc.prems(1) by (smt (verit) zero_less_power)
  have "2 ^ k \<le> n div 2" using Suc.prems(1) by simp
  moreover have "n div 2 < 2 ^ Suc k" using Suc.prems(2) by simp
  ultimately have "bitlen (n div 2) = int k + 1" by (rule Suc.IH)
  then show ?case using \<open>0 < n\<close> by (subst bitlen.simps) simp
qed

lemma exponent_eq:
  assumes "pow2 e \<le> x" and "x < pow2 (e + 1)"
  shows "exponent x = e"
proof (cases "1 \<le> x")
  case True
  have "0 \<le> e"
  proof (rule ccontr)
    assume "\<not> 0 \<le> e"
    then have "e + 1 \<le> 0" by simp
    then have "pow2 (e + 1) \<le> pow2 0" by (rule pow2_mono)
    then show False using assms(2) True by (simp add: pow2_def)
  qed
  then obtain k where e: "e = int k" using nonneg_int_cases by blast
  have "of_int (2 ^ k) \<le> x" using assms(1) e by (simp add: pow2_of_nat)
  then have a: "2 ^ k \<le> \<lfloor>x\<rfloor>" by (simp only: le_floor_iff)
  have "e + 1 = int (Suc k)" using e by simp
  then have "x < of_int (2 ^ Suc k)" using assms(2) by (simp only: pow2_of_nat) simp
  then have b: "\<lfloor>x\<rfloor> < 2 ^ Suc k" by (simp only: floor_less_iff)
  from a b have "bitlen \<lfloor>x\<rfloor> = int k + 1" by (rule bitlen_unique)
  then show ?thesis using True e by (simp add: exponent_def)
next
  case False
  have x0: "0 < x" using assms(1) pow2_pos [of e] by simp
  have "e < 0"
  proof (rule ccontr)
    assume "\<not> e < 0"
    then have "pow2 0 \<le> pow2 e" by (intro pow2_mono) simp
    then show False using assms(1) False by (simp add: pow2_def)
  qed
  then obtain m where e: "e = - int (Suc m)"
    by (metis add.inverse_inverse zero_less_imp_eq_int neg_0_less_iff_less Suc_pred' of_nat_0_less_iff)
  have lo: "1 / 2 ^ Suc m \<le> x" using assms(1) e by (simp only: pow2_neg_nat)
  have "e + 1 = - int m" using e by simp
  then have hi: "x < 1 / 2 ^ m" using assms(2) by (simp only: pow2_neg_nat)
  have yhi: "1 / x \<le> 2 ^ Suc m"
    using lo x0 by (simp add: field_simps)
  have ylo: "2 ^ m < 1 / x"
    using hi x0 by (simp add: field_simps)
  show ?thesis
  proof (cases "x = 1 / 2 ^ Suc m")
    case True
    then have "1 / x = of_int (2 ^ Suc m)" by simp
    then have "\<lfloor>1 / x\<rfloor> = 2 ^ Suc m" by (simp only: floor_of_int)
    moreover have "bitlen (2 ^ Suc m) = int (Suc m) + 1"
      by (rule bitlen_unique) simp_all
    ultimately have k: "bitlen \<lfloor>1 / x\<rfloor> = int (Suc m) + 1" by simp
    have "1 - (int (Suc m) + 1) = - int (Suc m)" by simp
    then have "pow2 (1 - (int (Suc m) + 1)) = x" using True by (simp only: pow2_neg_nat)
    then show ?thesis using \<open>\<not> 1 \<le> x\<close> k e by (simp add: exponent_def Let_def)
  next
    case ne: False
    then have "1 / 2 ^ Suc m < x" using lo by simp
    then have "1 / x < of_int (2 ^ Suc m)" using x0 by (simp add: field_simps)
    then have b: "\<lfloor>1 / x\<rfloor> < 2 ^ Suc m" by (simp only: floor_less_iff)
    have "of_int (2 ^ m) \<le> 1 / x" using ylo by simp
    then have a: "2 ^ m \<le> \<lfloor>1 / x\<rfloor>" by (simp only: le_floor_iff)
    from a b have k: "bitlen \<lfloor>1 / x\<rfloor> = int m + 1" by (rule bitlen_unique)
    have "1 - (int m + 1) = - int m" by simp
    then have "pow2 (1 - (int m + 1)) = 1 / 2 ^ m" by (simp only: pow2_neg_nat)
    then have "x \<noteq> pow2 (1 - (int m + 1))" using hi by simp
    then show ?thesis using \<open>\<not> 1 \<le> x\<close> k e by (simp add: exponent_def Let_def)
  qed
qed

lemma round_half_even_eq:
  assumes "\<bar>q - of_int n\<bar> < 1 / 2"
  shows "round_half_even q = n"
proof -
  have "of_int n - 1 \<le> q" "q < of_int n + 1" using assms by linarith+
  then have "of_int (n - 1) \<le> q" "q < of_int (n + 1)" by simp_all
  then have "n - 1 \<le> \<lfloor>q\<rfloor>" "\<lfloor>q\<rfloor> < n + 1" by (simp_all only: le_floor_iff floor_less_iff)
  then consider "\<lfloor>q\<rfloor> = n" | "\<lfloor>q\<rfloor> = n - 1" by linarith
  then show ?thesis
  proof cases
    case 1
    have "of_int n \<le> q" using of_int_floor_le [of q] 1 by simp
    then have "q - of_int n < 1 / 2" using assms by linarith
    then show ?thesis using 1 by (simp add: round_half_even_def Let_def)
  next
    case 2
    have "q < of_int \<lfloor>q\<rfloor> + 1" by linarith
    then have "q < of_int n" using 2 by simp
    then have "1 / 2 < q - of_int (n - 1)" using assms by simp
    then have "1 / 2 < q - of_int \<lfloor>q\<rfloor>" "\<not> q - of_int \<lfloor>q\<rfloor> < 1 / 2"
      using 2 by simp_all
    then show ?thesis using 2 unfolding round_half_even_def Let_def by (simp only: if_False if_True)
  qed
qed

lemma floor_rat_numeral:
  "\<lfloor>(numeral a :: rat) / numeral b\<rfloor> = numeral a div numeral b"
  using floor_divide_of_int_eq [of "numeral a" "numeral b", where ?'a = rat] by simp

lemma round53_eqI:
  assumes "pow2 e \<le> x" and "x < pow2 (e + 1)" and "- 1022 \<le> e"
    and "y = of_int (round_half_even (x / pow2 (e - 52))) * pow2 (e - 52)"
  shows "round53 x = y"
proof -
  have x0: "0 < x" using assms(1) pow2_pos [of e] by simp
  have "exponent \<bar>x\<bar> = e" using assms(1,2) x0 by (simp add: exponent_eq)
  then show ?thesis
    using x0 assms(3,4) by (simp add: round53_def Let_def max_def)
qed

lemma round53_nonneg: "0 \<le> x \<Longrightarrow> 0 \<le> round53 x"
  by (auto simp: round53_def Let_def pow2_def round_half_even_def sgn_if intro!: mult_nonneg_nonneg)
















lemma double_42_5: "round53 (85 / 2) = 85 / 2"
  by (rule round53_eqI [where e = "5"]) (simp_all add: pow2_def round_half_even_def Let_def floor_rat_numeral)


lemma round53_0: "round53 0 = 0"
  by (simp add: round53_def)

subsection \<open>The summary\<close>



lemma summary_empty: "summary_answer [] = Inr (Summary_out 0 0 0)"
  by (simp add: summary_answer_def py_sum_def fl_sub_def round_double_def round53_0 pow2_def)


subsection \<open>An addition without an amount\<close>

text \<open>
  Claim C4. When a text is classified as an expense or an income to add and holds
  no digit, so that nothing in it matches the amount pattern, the command answers
  \<^verbatim>\<open>need_amount\<close> with the description (the lowercased text) and the category
  parsed so far, and the store is left as it was: no transaction is created.
\<close>

theorem need_amount_without_numeral:
  assumes "intent (parse_command utcnow text) \<in> {''add'', ''add_income''}"
    and "list_all (\<lambda>c. \<not> is_digit c) text"
  shows "handle_command (Some text) utcnow now s =
           (Inr (Need_amount (lower text)
                   (if intent (parse_command utcnow text) = ''add''
                    then (case re_category [''on'', ''for''] (lower text) of
                            Some g \<Rightarrow> strip g | None \<Rightarrow> ''general'')
                    else (case re_category [''from'', ''for''] (lower text) of
                            Some g \<Rightarrow> strip g | None \<Rightarrow> ''income''))),
            s)"
proof -
  have ne: "text \<noteq> []"
    using assms(1) parse_command_Nil [of utcnow] by auto
  have amt: "extract_amount (lower text) = None"
    using assms(2) by (rule extract_amount_no_digit)
  from assms(1) consider
      (expense) a c d t where "parse_command utcnow text = P_add a c d t"
    | (income) a c d t where "parse_command utcnow text = P_add_income a c d t"
    by (cases "parse_command utcnow text") simp_all
  then show ?thesis
  proof cases
    case expense
    then have "parse_command utcnow text =
        P_add None (case re_category [''on'', ''for''] (lower text) of
                      Some g \<Rightarrow> strip g | None \<Rightarrow> ''general'') (lower text) utcnow"
      using amt by (auto simp add: parse_command_def Let_def split: if_splits)
    then show ?thesis
      using ne by (simp add: handle_command_def add_branch_def)
  next
    case income
    then have "parse_command utcnow text =
        P_add_income None (case re_category [''from'', ''for''] (lower text) of
                      Some g \<Rightarrow> strip g | None \<Rightarrow> ''income'') (lower text) utcnow"
      using amt by (auto simp add: parse_command_def Let_def split: if_splits)
    then show ?thesis
      using ne by (simp add: handle_command_def add_branch_def)
  qed
qed

theorem need_amount_without_numeral_witness:
  "handle_command (Some ''Bought coffee for Anna'') t0 t0 empty_store =
     (Inr (Need_amount ''bought coffee for anna'' ''anna''), empty_store)
   \<and> handle_command (Some ''received my salary'') t0 t0 empty_store =
     (Inr (Need_amount ''received my salary'' ''income''), empty_store)"
  using need_amount_without_numeral [of t0 "''Bought coffee for Anna''" t0 empty_store]
        need_amount_without_numeral [of t0 "''received my salary''" t0 empty_store]
  by (simp add: text_eval)

subsection \<open>The read-only intents\<close>

text \<open>
  Claim C10. A command whose text is classified as \<^verbatim>\<open>summary\<close>, \<^verbatim>\<open>list\<close>,
  \<^verbatim>\<open>get_tx\<close> (the lookup by id) or \<^verbatim>\<open>unknown\<close> leaves the whole store, its
  transactions, budgets, goals and recurring rules, exactly as it found it, whether
  it answers or raises.
\<close>

theorem read_only_intents:
  assumes "intent (parse_command utcnow text) \<in> {''summary'', ''list'', ''get_tx'', ''unknown''}"
  shows "snd (handle_command (Some text) utcnow now s) = s"
proof -
  from assms consider "parse_command utcnow text = P_summary"
    | "parse_command utcnow text = P_list"
    | n where "parse_command utcnow text = P_get_tx n"
    | "parse_command utcnow text = P_unknown"
    by (cases "parse_command utcnow text") simp_all
  then show ?thesis
    by cases (simp_all add: handle_command_def Let_def split: option.split)
qed

theorem read_only_intents_witness:
  "snd (handle_command (Some ''show my balance'') t0 t0 empty_store) = empty_store
   \<and> snd (handle_command (Some ''99'') t0 t0 empty_store) = empty_store"
  using read_only_intents [of t0 "''show my balance''" t0 empty_store]
        read_only_intents [of t0 "''99''" t0 empty_store]
  by (simp add: text_eval)

subsection \<open>The classifier\<close>

text \<open>
  Claim C1, as amended. For every text of ASCII characters each of the two
  classifiers applies its rules in order to the lowercased text, the first that
  applies deciding. In \<^verbatim>\<open>main_20250909155147.py\<close>: the text contains \<^verbatim>\<open>spent\<close>,
  \<^verbatim>\<open>bought\<close>, \<^verbatim>\<open>pay\<close> or \<^verbatim>\<open>purchase\<close>, an expense to add; it contains \<^verbatim>\<open>earned\<close>,
  \<^verbatim>\<open>salary\<close> or \<^verbatim>\<open>received\<close>, an income to add; \<^verbatim>\<open>summary\<close> or \<^verbatim>\<open>balance\<close>, the
  summary; \<^verbatim>\<open>list\<close> or \<^verbatim>\<open>transactions\<close>, the listing; \<^verbatim>\<open>delete\<close> or \<^verbatim>\<open>remove\<close>, the
  deletion; the whole trimmed text is a numeral of at most six digits, the lookup of
  that id; otherwise the intent is unknown. In \<^verbatim>\<open>main_20250909235636.py\<close> the rules
  are the same without the word \<^verbatim>\<open>purchase\<close> and without the lookup of an id. The
  words \<^verbatim>\<open>paid\<close>, \<^verbatim>\<open>income\<close>, \<^verbatim>\<open>got paid\<close> and \<^verbatim>\<open>show\<close> of the specification are not
  among the words of either.
\<close>

theorem classifier_rules:
  assumes "list_all is_ascii text"
  shows "classified (parse_command utcnow text) =
           rules_intent [''spent'', ''bought'', ''pay'', ''purchase'']
                        [''earned'', ''salary'', ''received'']
                        [''list'', ''transactions''] True text
       \<and> classified (parse_command_235636 utcnow text) =
           rules_intent [''spent'', ''bought'', ''pay'']
                        [''earned'', ''salary'', ''received'']
                        [''list'', ''transactions''] False text"
  by (simp add: parse_command_def parse_command_235636_def rules_intent_def Let_def isdigit_def
        contains_iff_sublist [symmetric] less_Suc_eq_le [symmetric])

theorem classifier_rules_witness:
  "classified (parse_command t0 ''I will PAY my purchase'') = Add_expense
   \<and> classified (parse_command t0 '' 0042 '') = Get_by_id 42
   \<and> classified (parse_command_235636 t0 ''I will PAY my purchase'') = Add_expense
   \<and> classified (parse_command_235636 t0 '' 0042 '') = Unknown
   \<and> classified (parse_command_235636 t0 ''my purchase'') = Unknown"
proof -
  have "list_all is_ascii ''I will PAY my purchase''" "list_all is_ascii '' 0042 ''"
    "list_all is_ascii ''my purchase''"
    by (simp_all add: is_ascii_def)
  then show ?thesis
    using classifier_rules [of "''I will PAY my purchase''" t0]
          classifier_rules [of "'' 0042 ''" t0]
          classifier_rules [of "''my purchase''" t0]
    by (simp add: rules_intent_def text_eval contains_iff_sublist [symmetric])
qed

text \<open>The text \<^verbatim>\<open>paid 20\<close> is an expense by the specification's first rule, and of
  unknown intent for both classifiers: \<^verbatim>\<open>pay\<close> does not occur in \<^verbatim>\<open>paid\<close>.\<close>

theorem classifier_paid_counterexample:
  "classified (parse_command t0 ''paid 20'') = Unknown
   \<and> classified (parse_command_235636 t0 ''paid 20'') = Unknown
   \<and> claimed_intent ''paid 20'' = Add_expense"
  by (simp add: claimed_intent_def rules_intent_def parse_command_235636_def text_eval
        contains_iff_sublist [symmetric])

subsection \<open>Deletion by id\<close>

lemma find_None_list_ex: "find P xs = None \<longleftrightarrow> \<not> list_ex P xs"
  by (induction xs) auto

lemma find_Some_P: "find P xs = Some x \<Longrightarrow> P x"
  by (induction xs) (auto split: if_splits)

lemma parse_delete_nonempty: "intent (parse_command utcnow text) = ''delete'' \<Longrightarrow> text \<noteq> []"
  using parse_command_Nil [of utcnow] by auto

lemma handle_command_delete:
  assumes "intent (parse_command utcnow text) = ''delete''"
  shows "handle_command (Some text) utcnow now s =
     (case re_delete_id text of
        None \<Rightarrow> (Inl (HTTPException 400 ''no id found to delete''), s)
      | Some m \<Rightarrow>
          if list_ex (\<lambda>r. tx_id r = int_of_digits m) (transactions s)
          then (Inr (Deleted (int_of_digits m)),
                s\<lparr>transactions := filter (\<lambda>r. tx_id r \<noteq> int_of_digits m) (transactions s)\<rparr>)
          else (Inl (HTTPException 404 ''transaction not found''), s))"
proof -
  have p: "parse_command utcnow text = P_delete"
    using assms by (simp add: intent_cases)
  have ne: "text \<noteq> []"
    using assms by (rule parse_delete_nonempty)
  show ?thesis
  proof (cases "re_delete_id text")
    case None
    then show ?thesis using p ne by (simp add: handle_command_def)
  next
    case (Some m)
    show ?thesis
    proof (cases "find (\<lambda>r. tx_id r = int_of_digits m) (transactions s)")
      case None
      then have "\<not> list_ex (\<lambda>r. tx_id r = int_of_digits m) (transactions s)"
        by (simp add: find_None_list_ex)
      then show ?thesis
        using p ne Some None by (simp add: handle_command_def Let_def)
    next
      case (Some tx)
      then have "tx_id tx = int_of_digits m" by (auto dest: find_Some_P)
      moreover have "list_ex (\<lambda>r. tx_id r = int_of_digits m) (transactions s)"
        using Some find_None_list_ex [of "\<lambda>r. tx_id r = int_of_digits m" "transactions s"] by auto
      ultimately show ?thesis
        using p ne Some \<open>re_delete_id text = Some m\<close> by (simp add: handle_command_def Let_def)
    qed
  qed
qed

lemma not_found_stable:
  assumes "intent (parse_command utcnow text) = ''delete''"
    and "re_delete_id text = Some m"
    and "\<not> list_ex (\<lambda>r. tx_id r = int_of_digits m) (transactions s)"
  shows "((\<lambda>s'. snd (handle_command (Some text) utcnow now s')) ^^ k) s = s"
proof (induction k)
  case 0
  show ?case by simp
next
  case (Suc k)
  then show ?case
    using assms by (simp add: handle_command_delete)
qed

lemma digit_word: "is_digit c \<Longrightarrow> is_word c"
  by (simp add: is_word_def)

lemma digits_run:
  assumes "list_all is_digit m" and "post = [] \<or> \<not> is_word (hd post)"
  shows "takeWhile is_digit (m @ post) = m \<and> dropWhile is_digit (m @ post) = post"
proof -
  have "post = [] \<or> \<not> is_digit (hd post)"
    using assms(2) digit_word by blast
  then have "takeWhile is_digit post = []" "dropWhile is_digit post = post"
    by (cases post; simp)+
  moreover have "\<forall>x\<in>set m. is_digit x"
    using assms(1) by (simp add: list_all_iff)
  ultimately show ?thesis
    by (simp add: takeWhile_append2 dropWhile_append2)
qed

lemma head_match_iff:
  "(\<exists>m post. c # cs = m @ post \<and> bare_numeral prev [] m post) \<longleftrightarrow>
     (\<not> prev \<and> is_digit c \<and> length (takeWhile is_digit (c # cs)) \<le> 6
      \<and> (case dropWhile is_digit (c # cs) of [] \<Rightarrow> True | x # _ \<Rightarrow> \<not> is_word x))"
  (is "?L \<longleftrightarrow> ?R")
proof
  assume ?L
  then obtain m post where mp: "c # cs = m @ post" and b: "bare_numeral prev [] m post"
    by blast
  from b have run: "takeWhile is_digit (m @ post) = m \<and> dropWhile is_digit (m @ post) = post"
    by (intro digits_run) (simp_all add: bare_numeral_def)
  from b mp have "is_digit c"
    by (cases m) (auto simp: bare_numeral_def)
  moreover from b have "\<not> prev" "length m \<le> 6" "post = [] \<or> \<not> is_word (hd post)"
    by (simp_all add: bare_numeral_def)
  moreover have tw: "takeWhile is_digit (c # cs) = m" "dropWhile is_digit (c # cs) = post"
    using run by (simp_all only: mp)
  ultimately show ?R
    unfolding tw by (cases post) simp_all
next
  assume r: ?R
  let ?m = "takeWhile is_digit (c # cs)"
  let ?post = "dropWhile is_digit (c # cs)"
  have "c # cs = ?m @ ?post" by simp
  moreover have "bare_numeral prev [] ?m ?post"
  proof -
    have "?m \<noteq> []" using r by simp
    moreover have "list_all is_digit ?m"
      by (simp add: list_all_iff del: takeWhile.simps) (meson set_takeWhileD)
    moreover have "?post = [] \<or> \<not> is_word (hd ?post)"
      using r by (cases ?post) (simp_all del: dropWhile.simps)
    ultimately show ?thesis
      using r by (simp add: bare_numeral_def del: takeWhile.simps dropWhile.simps)
  qed
  ultimately show ?L by blast
qed

lemma tail_match_iff:
  "(\<exists>pre m post. pre \<noteq> [] \<and> c # cs = pre @ m @ post \<and> bare_numeral prev pre m post) \<longleftrightarrow>
   (\<exists>pre m post. cs = pre @ m @ post \<and> bare_numeral (is_word c) pre m post)"
  (is "?L \<longleftrightarrow> ?R")
proof
  assume ?L
  then obtain pre m post where p: "pre \<noteq> []" "c # cs = pre @ m @ post"
    "bare_numeral prev pre m post" by blast
  then obtain ps where ps: "pre = c # ps" by (cases pre) auto
  then have "cs = ps @ m @ post" using p(2) by simp
  moreover have "bare_numeral (is_word c) ps m post"
    using p(3) ps by (auto simp: bare_numeral_def split: if_splits)
  ultimately show ?R by blast
next
  assume ?R
  then obtain pre m post where p: "cs = pre @ m @ post" "bare_numeral (is_word c) pre m post"
    by blast
  then have "c # cs = (c # pre) @ m @ post" by simp
  moreover have "bare_numeral prev (c # pre) m post"
    using p(2) by (auto simp: bare_numeral_def split: if_splits)
  ultimately show ?L by blast
qed

lemma re_delete_id_from_None:
  "re_delete_id_from prev s = None \<longleftrightarrow>
     \<not> (\<exists>pre m post. s = pre @ m @ post \<and> bare_numeral prev pre m post)"
proof (induction s arbitrary: prev)
  case Nil
  show ?case by (simp add: bare_numeral_def)
next
  case (Cons c cs)
  have split: "(\<exists>pre m post. c # cs = pre @ m @ post \<and> bare_numeral prev pre m post) \<longleftrightarrow>
      (\<exists>m post. c # cs = m @ post \<and> bare_numeral prev [] m post)
      \<or> (\<exists>pre m post. pre \<noteq> [] \<and> c # cs = pre @ m @ post \<and> bare_numeral prev pre m post)"
    by (metis append_Nil)
  show ?case
    unfolding split head_match_iff tail_match_iff
    using Cons.IH [of "is_word c"] by (simp del: takeWhile.simps dropWhile.simps)
qed

lemma re_delete_id_from_Some:
  "re_delete_id_from prev s = Some m \<Longrightarrow>
     \<exists>pre post. s = pre @ m @ post \<and> bare_numeral prev pre m post"
proof (induction s arbitrary: prev)
  case Nil
  then show ?case by simp
next
  case (Cons c cs)
  show ?case
  proof (cases "\<not> prev \<and> is_digit c \<and> length (takeWhile is_digit (c # cs)) \<le> 6
      \<and> (case dropWhile is_digit (c # cs) of [] \<Rightarrow> True | x # _ \<Rightarrow> \<not> is_word x)")
    case True
    then have m: "m = takeWhile is_digit (c # cs)"
      using Cons.prems by (simp del: takeWhile.simps dropWhile.simps)
    have "\<exists>m' post. c # cs = m' @ post \<and> bare_numeral prev [] m' post"
      unfolding head_match_iff using True .
    then obtain m' post where mp: "c # cs = m' @ post" "bare_numeral prev [] m' post"
      by blast
    then have "takeWhile is_digit (m' @ post) = m'"
      using digits_run [of m' post] by (simp add: bare_numeral_def)
    then have "m' = m" using m mp(1) by simp
    then show ?thesis using mp by (metis append_Nil)
  next
    case False
    then have "re_delete_id_from (is_word c) cs = Some m"
      using Cons.prems by (auto simp del: takeWhile.simps dropWhile.simps split: if_splits)
    from Cons.IH [OF this] obtain pre post where
      "cs = pre @ m @ post" "bare_numeral (is_word c) pre m post" by blast
    then have "c # cs = (c # pre) @ m @ post \<and> bare_numeral prev (c # pre) m post"
      by (auto simp: bare_numeral_def split: if_splits)
    then show ?thesis by blast
  qed
qed

text \<open>
  Claim C7. Let a text be classified as a deletion. If the text as typed holds no
  bare numeral of at most six digits, the command raises the error of status 400,
  the invalid input. Otherwise the pattern finds such a numeral of the text, the
  first one, and its value is the id. If no transaction has that id, the command
  raises the error of status 404, not found, and leaves the store as it was, so
  that the command repeated any number of times raises the same error. If a
  transaction has that id, it is removed and no other row is, the answer names the
  id, and the same command run again raises not found.
\<close>

theorem delete_by_id:
  assumes "intent (parse_command utcnow text) = ''delete''"
  shows
    "(\<not> (\<exists>pre m post. text = pre @ m @ post \<and> bare_numeral False pre m post) \<longrightarrow>
        handle_command (Some text) utcnow now s =
          (Inl (HTTPException 400 ''no id found to delete''), s))
     \<and> ((\<exists>pre m post. text = pre @ m @ post \<and> bare_numeral False pre m post) \<longrightarrow>
          (\<exists>pre m post. text = pre @ m @ post \<and> bare_numeral False pre m post
                         \<and> re_delete_id text = Some m))
     \<and> (\<forall>m. re_delete_id text = Some m
             \<and> \<not> list_ex (\<lambda>r. tx_id r = int_of_digits m) (transactions s) \<longrightarrow>
          (\<forall>k. handle_command (Some text) utcnow now
                 (((\<lambda>s'. snd (handle_command (Some text) utcnow now s')) ^^ k) s) =
               (Inl (HTTPException 404 ''transaction not found''), s)))
     \<and> (\<forall>m. re_delete_id text = Some m
             \<and> list_ex (\<lambda>r. tx_id r = int_of_digits m) (transactions s) \<longrightarrow>
          handle_command (Some text) utcnow now s =
            (Inr (Deleted (int_of_digits m)),
             s\<lparr>transactions := filter (\<lambda>r. tx_id r \<noteq> int_of_digits m) (transactions s)\<rparr>)
          \<and> fst (handle_command (Some text) utcnow now
                   (snd (handle_command (Some text) utcnow now s))) =
              Inl (HTTPException 404 ''transaction not found''))"
proof (intro conjI allI impI)
  assume "\<not> (\<exists>pre m post. text = pre @ m @ post \<and> bare_numeral False pre m post)"
  then have "re_delete_id text = None"
    by (simp add: re_delete_id_def re_delete_id_from_None)
  then show "handle_command (Some text) utcnow now s =
      (Inl (HTTPException 400 ''no id found to delete''), s)"
    using assms by (simp add: handle_command_delete)
next
  assume "\<exists>pre m post. text = pre @ m @ post \<and> bare_numeral False pre m post"
  then have "re_delete_id text \<noteq> None"
    by (simp add: re_delete_id_def re_delete_id_from_None)
  then obtain m where m: "re_delete_id text = Some m" by blast
  then have "\<exists>pre post. text = pre @ m @ post \<and> bare_numeral False pre m post"
    by (intro re_delete_id_from_Some) (simp only: re_delete_id_def)
  with m show "\<exists>pre m post. text = pre @ m @ post \<and> bare_numeral False pre m post
      \<and> re_delete_id text = Some m"
    by blast
next
  fix m k
  assume h: "re_delete_id text = Some m
      \<and> \<not> list_ex (\<lambda>r. tx_id r = int_of_digits m) (transactions s)"
  then have "((\<lambda>s'. snd (handle_command (Some text) utcnow now s')) ^^ k) s = s"
    using assms not_found_stable by blast
  then show "handle_command (Some text) utcnow now
      (((\<lambda>s'. snd (handle_command (Some text) utcnow now s')) ^^ k) s) =
      (Inl (HTTPException 404 ''transaction not found''), s)"
    using assms h by (simp add: handle_command_delete)
next
  fix m
  assume h: "re_delete_id text = Some m
      \<and> list_ex (\<lambda>r. tx_id r = int_of_digits m) (transactions s)"
  then show "handle_command (Some text) utcnow now s =
      (Inr (Deleted (int_of_digits m)),
       s\<lparr>transactions := filter (\<lambda>r. tx_id r \<noteq> int_of_digits m) (transactions s)\<rparr>)"
    using assms by (simp add: handle_command_delete)
  then show "fst (handle_command (Some text) utcnow now
      (snd (handle_command (Some text) utcnow now s))) =
      Inl (HTTPException 404 ''transaction not found'')"
    using assms h by (simp add: handle_command_delete list_ex_iff)
qed

theorem delete_by_id_witness:
  "handle_command (Some ''delete it'') t0 t0 store5 =
     (Inl (HTTPException 400 ''no id found to delete''), store5)
   \<and> handle_command (Some ''delete 7'') t0 t0 store5 =
     (Inl (HTTPException 404 ''transaction not found''), store5)
   \<and> handle_command (Some ''Delete 5'') t0 t0 store5 = (Inr (Deleted 5), empty_store)
   \<and> fst (handle_command (Some ''Delete 5'') t0 t0
            (snd (handle_command (Some ''Delete 5'') t0 t0 store5))) =
       Inl (HTTPException 404 ''transaction not found'')"
proof -
  have c: "intent (parse_command t0 ''delete it'') = ''delete''"
    "intent (parse_command t0 ''delete 7'') = ''delete''"
    "intent (parse_command t0 ''Delete 5'') = ''delete''"
    by (simp_all add: text_eval)
  have r: "re_delete_id ''delete it'' = None" "re_delete_id ''delete 7'' = Some ''7''"
    "re_delete_id ''Delete 5'' = Some ''5''"
    by (simp_all add: text_eval)
  have "re_delete_id_from False ''delete it'' = None"
    using r(1) by (simp only: re_delete_id_def)
  then have n: "\<not> (\<exists>pre m post. ''delete it'' = pre @ m @ post \<and> bare_numeral False pre m post)"
    using re_delete_id_from_None by blast
  have i: "int_of_digits ''7'' = 7" "int_of_digits ''5'' = 5"
    by (simp_all add: text_eval)
  have a: "handle_command (Some ''delete it'') t0 t0 store5 =
     (Inl (HTTPException 400 ''no id found to delete''), store5)"
    using delete_by_id [OF c(1), of t0 store5] n by blast
  have "\<forall>k. handle_command (Some ''delete 7'') t0 t0
       (((\<lambda>s'. snd (handle_command (Some ''delete 7'') t0 t0 s')) ^^ k) store5) =
     (Inl (HTTPException 404 ''transaction not found''), store5)"
    using delete_by_id [OF c(2), of t0 store5] r(2) i(1)
    by (simp add: store5_def tx5_def)
  then have "handle_command (Some ''delete 7'') t0 t0
       (((\<lambda>s'. snd (handle_command (Some ''delete 7'') t0 t0 s')) ^^ 0) store5) =
     (Inl (HTTPException 404 ''transaction not found''), store5)"
    by (rule spec)
  then have b: "handle_command (Some ''delete 7'') t0 t0 store5 =
     (Inl (HTTPException 404 ''transaction not found''), store5)"
    by simp
  have ex: "list_ex (\<lambda>r. tx_id r = int_of_digits ''5'') (transactions store5)"
    by (simp add: store5_def tx5_def i)
  have d: "handle_command (Some ''Delete 5'') t0 t0 store5 =
        (Inr (Deleted (int_of_digits ''5'')),
         store5\<lparr>transactions :=
           filter (\<lambda>r. tx_id r \<noteq> int_of_digits ''5'') (transactions store5)\<rparr>)
    \<and> fst (handle_command (Some ''Delete 5'') t0 t0
            (snd (handle_command (Some ''Delete 5'') t0 t0 store5))) =
       Inl (HTTPException 404 ''transaction not found'')"
    using delete_by_id [OF c(3), of t0 store5] r(3) ex by blast
  have e: "store5\<lparr>transactions :=
           filter (\<lambda>r. tx_id r \<noteq> int_of_digits ''5'') (transactions store5)\<rparr> = empty_store"
    by (simp add: store5_def tx5_def empty_store_def i)
  from a b d [THEN conjunct1] d [THEN conjunct2] show ?thesis
    by (simp add: i e [unfolded i])
qed

subsection \<open>The budget upsert\<close>

lemma update_first_map_inv:
  "(\<And>x. g (f x) = g x) \<Longrightarrow> map g (update_first P f xs) = map g xs"
  by (induction xs) auto

lemma filter_update_first_other:
  "(\<And>x. g (f x) = g x) \<Longrightarrow>
   filter (\<lambda>x. g x \<noteq> c) (update_first (\<lambda>x. g x = c) f xs) = filter (\<lambda>x. g x \<noteq> c) xs"
  by (induction xs) auto

lemma filter_none: "\<not> list_ex P xs \<Longrightarrow> filter P xs = []"
  by (induction xs) auto

lemma filter_update_first_distinct:
  assumes "distinct (map g xs)" and "find (\<lambda>x. g x = c) xs = Some e" and "\<And>x. g (f x) = g x"
  shows "filter (\<lambda>x. g x = c) (update_first (\<lambda>x. g x = c) f xs) = [f e]"
  using assms(1,2)
proof (induction xs)
  case Nil
  then show ?case by simp
next
  case (Cons x xs)
  show ?case
  proof (cases "g x = c")
    case True
    then have "e = x" using Cons.prems(2) by simp
    moreover have "c \<notin> set (map g xs)" using Cons.prems(1) True by auto
    then have "filter (\<lambda>x. g x = c) xs = []"
      by (induction xs) auto
    ultimately show ?thesis using True assms(3) by simp
  next
    case False
    then show ?thesis using Cons assms(3) by simp
  qed
qed

lemma create_budget_update:
  assumes "find (\<lambda>x. b_category x = in_category b) (budgets s) = Some e"
  shows "create_budget b s =
     (Budget_updated (b_id e),
      s\<lparr>budgets := update_first (\<lambda>x. b_category x = in_category b)
           (\<lambda>x. x\<lparr>b_monthly_amount := in_monthly_amount b, b_currency := in_currency b\<rparr>)
           (budgets s)\<rparr>)"
  using assms by (simp add: create_budget_def)

lemma create_budget_insert:
  assumes "find (\<lambda>x. b_category x = in_category b) (budgets s) = None"
  shows "create_budget b s =
     (Budget_created (new_id (map b_id (budgets s))),
      s\<lparr>budgets := budgets s @
           [\<lparr>b_id = new_id (map b_id (budgets s)), b_category = in_category b,
             b_monthly_amount = in_monthly_amount b, b_currency = in_currency b\<rparr>]\<rparr>)"
  using assms by (simp add: create_budget_def Let_def)

lemma create_budget_rows:
  assumes "distinct (map b_category (budgets s))"
  shows "\<exists>row. filter (\<lambda>x. b_category x = in_category b) (budgets (snd (create_budget b s))) = [row]
     \<and> b_monthly_amount row = in_monthly_amount b \<and> b_currency row = in_currency b
     \<and> fst (create_budget b s) =
         (if list_ex (\<lambda>x. b_category x = in_category b) (budgets s)
          then Budget_updated (b_id row) else Budget_created (b_id row))
     \<and> filter (\<lambda>x. b_category x \<noteq> in_category b) (budgets (snd (create_budget b s))) =
         filter (\<lambda>x. b_category x \<noteq> in_category b) (budgets s)
     \<and> distinct (map b_category (budgets (snd (create_budget b s))))"
proof (cases "find (\<lambda>x. b_category x = in_category b) (budgets s)")
  case None
  then have no: "\<not> list_ex (\<lambda>x. b_category x = in_category b) (budgets s)"
    by (simp add: find_None_list_ex)
  then have "in_category b \<notin> set (map b_category (budgets s))"
    by (auto simp: list_ex_iff)
  then show ?thesis
    using assms no by (simp add: create_budget_insert [OF None] filter_none)
next
  case (Some e)
  then have yes: "list_ex (\<lambda>x. b_category x = in_category b) (budgets s)"
    using find_None_list_ex [of "\<lambda>x. b_category x = in_category b" "budgets s"] by auto
  let ?f = "\<lambda>x. x\<lparr>b_monthly_amount := in_monthly_amount b, b_currency := in_currency b\<rparr>"
  have one: "filter (\<lambda>x. b_category x = in_category b)
      (update_first (\<lambda>x. b_category x = in_category b) ?f (budgets s)) = [?f e]"
    using assms Some by (rule filter_update_first_distinct) simp
  have other: "filter (\<lambda>x. b_category x \<noteq> in_category b)
      (update_first (\<lambda>x. b_category x = in_category b) ?f (budgets s)) =
      filter (\<lambda>x. b_category x \<noteq> in_category b) (budgets s)"
    by (rule filter_update_first_other) simp
  have cats: "map b_category (update_first (\<lambda>x. b_category x = in_category b) ?f (budgets s)) =
      map b_category (budgets s)"
    by (rule update_first_map_inv) simp
  show ?thesis
    using assms yes one other cats by (simp add: create_budget_update [OF Some])
qed

text \<open>
  The upsert of \<^verbatim>\<open>main_20250909155147.py\<close>. The \<^verbatim>\<open>category\<close> column of its budgets
  is unique, so the categories of the table are distinct. Then after two calls of
  \<^verbatim>\<open>create_budget\<close> for the same
  category the table holds exactly one row of that category, with the monthly amount
  of the second call; the first call answers \<^verbatim>\<open>created\<close> if the category had no
  row and \<^verbatim>\<open>updated\<close> if it had one, the second call answers \<^verbatim>\<open>updated\<close>, both
  with the id of that row; and the rows of the other categories are as they were.
\<close>

theorem budget_upsert:
  assumes "distinct (map b_category (budgets s))"
    and "in_category b1 = c" and "in_category b2 = c"
  shows "\<exists>row.
      filter (\<lambda>x. b_category x = c)
        (budgets (snd (create_budget b2 (snd (create_budget b1 s))))) = [row]
      \<and> b_monthly_amount row = in_monthly_amount b2
      \<and> fst (create_budget b1 s) =
          (if list_ex (\<lambda>x. b_category x = c) (budgets s)
           then Budget_updated (b_id row) else Budget_created (b_id row))
      \<and> fst (create_budget b2 (snd (create_budget b1 s))) = Budget_updated (b_id row)
      \<and> filter (\<lambda>x. b_category x \<noteq> c)
          (budgets (snd (create_budget b2 (snd (create_budget b1 s))))) =
        filter (\<lambda>x. b_category x \<noteq> c) (budgets s)"
proof -
  let ?s1 = "snd (create_budget b1 s)"
  obtain r1 where r1: "filter (\<lambda>x. b_category x = c) (budgets ?s1) = [r1]"
    and a1: "fst (create_budget b1 s) =
         (if list_ex (\<lambda>x. b_category x = c) (budgets s)
          then Budget_updated (b_id r1) else Budget_created (b_id r1))"
    and o1: "filter (\<lambda>x. b_category x \<noteq> c) (budgets ?s1) = filter (\<lambda>x. b_category x \<noteq> c) (budgets s)"
    and d1: "distinct (map b_category (budgets ?s1))"
    using create_budget_rows [OF assms(1), of b1] assms(2) by auto
  have ex1: "list_ex (\<lambda>x. b_category x = c) (budgets ?s1)"
  proof -
    have "r1 \<in> set (filter (\<lambda>x. b_category x = c) (budgets ?s1))" using r1 by simp
    then show ?thesis by (auto simp: list_ex_iff)
  qed
  have f1: "find (\<lambda>x. b_category x = c) (budgets ?s1) = Some r1"
  proof -
    obtain e where e: "find (\<lambda>x. b_category x = c) (budgets ?s1) = Some e"
      using ex1 find_None_list_ex [of "\<lambda>x. b_category x = c" "budgets ?s1"] by auto
    then have "e \<in> set (filter (\<lambda>x. b_category x = c) (budgets ?s1))"
      by (auto simp: find_Some_iff in_set_conv_nth)
    then show ?thesis using r1 e by simp
  qed
  have id_same: "\<And>row. filter (\<lambda>x. b_category x = c)
        (budgets (snd (create_budget b2 ?s1))) = [row] \<Longrightarrow> b_id row = b_id r1"
    using f1 assms(3) d1
      filter_update_first_distinct [of b_category "budgets ?s1" c r1
        "\<lambda>x. x\<lparr>b_monthly_amount := in_monthly_amount b2, b_currency := in_currency b2\<rparr>"]
    by (auto simp: create_budget_update)
  obtain r2 where r2: "filter (\<lambda>x. b_category x = c) (budgets (snd (create_budget b2 ?s1))) = [r2]"
    and m2: "b_monthly_amount r2 = in_monthly_amount b2"
    and a2: "fst (create_budget b2 ?s1) =
         (if list_ex (\<lambda>x. b_category x = c) (budgets ?s1)
          then Budget_updated (b_id r2) else Budget_created (b_id r2))"
    and o2: "filter (\<lambda>x. b_category x \<noteq> c) (budgets (snd (create_budget b2 ?s1))) =
        filter (\<lambda>x. b_category x \<noteq> c) (budgets ?s1)"
    using create_budget_rows [OF d1, of b2] assms(3) by auto
  have "b_id r2 = b_id r1" using id_same r2 by simp
  then show ?thesis
    using r2 m2 a1 a2 ex1 o1 o2 by auto
qed

theorem budget_upsert_witness:
  "budgets (snd (create_budget \<lparr>in_category = ''food'', in_monthly_amount = 250, in_currency = ''EUR''\<rparr>
      (snd (create_budget \<lparr>in_category = ''food'', in_monthly_amount = 100, in_currency = ''USD''\<rparr>
         empty_store)))) =
     [\<lparr>b_id = 1, b_category = ''food'', b_monthly_amount = 250, b_currency = ''EUR''\<rparr>]
   \<and> fst (create_budget \<lparr>in_category = ''food'', in_monthly_amount = 100, in_currency = ''USD''\<rparr>
         empty_store) = Budget_created 1
   \<and> fst (create_budget \<lparr>in_category = ''food'', in_monthly_amount = 250, in_currency = ''EUR''\<rparr>
      (snd (create_budget \<lparr>in_category = ''food'', in_monthly_amount = 100, in_currency = ''USD''\<rparr>
         empty_store))) = Budget_updated 1"
  using budget_upsert [of empty_store
      "\<lparr>in_category = ''food'', in_monthly_amount = 100, in_currency = ''USD''\<rparr>" "''food''"
      "\<lparr>in_category = ''food'', in_monthly_amount = 250, in_currency = ''EUR''\<rparr>"]
  by (simp add: create_budget_def empty_store_def new_id_def)

subsection \<open>Calendar facts\<close>

lemma add_days_7:
  "add_days 7 d = next_day (next_day (next_day (next_day (next_day (next_day (next_day d))))))"
  by (simp add: eval_nat_numeral)

lemma add_days_Suc_right: "add_days (Suc k) d = next_day (add_days k d)"
  by (induction k arbitrary: d) simp_all

lemma add_days_same_month:
  "day d + k \<le> monthrange_days (year d) (month d) \<Longrightarrow> add_days k d = d\<lparr>day := day d + k\<rparr>"
proof (induction k arbitrary: d)
  case 0
  then show ?case by simp
next
  case (Suc k)
  then have "next_day d = d\<lparr>day := day d + 1\<rparr>"
    by (simp add: next_day_def)
  moreover have "add_days k (d\<lparr>day := day d + 1\<rparr>) = (d\<lparr>day := day d + 1\<rparr>)\<lparr>day := day (d\<lparr>day := day d + 1\<rparr>) + k\<rparr>"
    using Suc.prems by (intro Suc.IH) simp
  ultimately show ?case by simp
qed

lemma year_next_day:
  "year (next_day d) = year d \<or> next_day d = \<lparr>year = year d + 1, month = 1, day = 1\<rparr>"
  by (simp add: next_day_def)

lemma year_add_days_le: "k \<le> 28 \<Longrightarrow> year (add_days k d) \<le> Suc (year d)"
proof (induction k arbitrary: d)
  case 0
  then show ?case by simp
next
  case (Suc k)
  from year_next_day [of d] show ?case
  proof
    assume "year (next_day d) = year d"
    then show ?thesis using Suc.IH [of "next_day d"] Suc.prems by simp
  next
    assume nd: "next_day d = \<lparr>year = year d + 1, month = 1, day = 1\<rparr>"
    have "add_days k \<lparr>year = year d + 1, month = 1, day = 1\<rparr> =
        \<lparr>year = year d + 1, month = 1, day = 1\<rparr>\<lparr>day := day \<lparr>year = year d + 1, month = 1, day = 1\<rparr> + k\<rparr>"
      using Suc.prems by (intro add_days_same_month) (simp add: monthrange_days_def)
    then show ?thesis using nd by simp
  qed
qed

lemma add_week_ok: "year d < 9999 \<Longrightarrow> add_week d = Inr (add_days 7 d)"
  using year_add_days_le [of 7 d] by (simp add: add_week_def Let_def)

lemma add_month_ok:
  "year d < 9999 \<Longrightarrow> add_month d = Inr (one_interval_later ''monthly'' d)"
  by (simp add: add_month_def one_interval_later_def Let_def)

lemma advance_next_run_ok:
  "year d < 9999 \<Longrightarrow> advance_next_run r d = Inr (one_interval_later (r_interval r) d)"
  using add_month_ok [of d] add_week_ok [of d]
  by (simp add: advance_next_run_def one_interval_later_def)

lemma run_due_loop_result:
  assumes "\<forall>r\<in>set rs. \<forall>d. r_next_run r = Some d \<and> date_le d today \<longrightarrow> year d < 9999"
  shows "run_due_loop today i rs =
     Inr (map (\<lambda>(k, r). recurring_tx k r (the (r_next_run r)))
            (zip [i..<i + length (filter (is_due today) rs)] (filter (is_due today) rs)),
          map (\<lambda>r. if is_due today r
                    then r\<lparr>r_next_run := map_option (one_interval_later (r_interval r)) (r_next_run r)\<rparr>
                    else r) rs,
          map (\<lambda>r. (r_id r, r_amount r, r_category r)) (filter (is_due today) rs))"
  using assms
proof (induction rs arbitrary: i)
  case Nil
  show ?case by simp
next
  case (Cons r rs)
  have IH: "\<And>j. run_due_loop today j rs =
     Inr (map (\<lambda>(k, r). recurring_tx k r (the (r_next_run r)))
            (zip [j..<j + length (filter (is_due today) rs)] (filter (is_due today) rs)),
          map (\<lambda>r. if is_due today r
                    then r\<lparr>r_next_run := map_option (one_interval_later (r_interval r)) (r_next_run r)\<rparr>
                    else r) rs,
          map (\<lambda>r. (r_id r, r_amount r, r_category r)) (filter (is_due today) rs))"
    using Cons.prems by (intro Cons.IH) simp
  show ?case
  proof (cases "r_next_run r")
    case None
    then have "\<not> is_due today r" by (simp add: is_due_def)
    then show ?thesis using None by (simp add: IH)
  next
    case (Some d)
    show ?thesis
    proof (cases "date_le d today")
      case True
      then have "year d < 9999" using Cons.prems Some by simp
      then have adv: "advance_next_run r d = Inr (one_interval_later (r_interval r) d)"
        by (rule advance_next_run_ok)
      have due: "is_due today r" using Some True by (simp add: is_due_def)
      have upt: "[i..<Suc (i + length (filter (is_due today) rs))] =
          i # [Suc i..<Suc (i + length (filter (is_due today) rs))]"
        by (rule upt_conv_Cons) simp
      show ?thesis
        using Some True adv due by (simp add: IH [of "Suc i"] upt del: upt_Suc)
    next
      case False
      then have "\<not> is_due today r" using Some by (simp add: is_due_def)
      then show ?thesis using Some False by (simp add: IH)
    qed
  qed
qed

lemma next_day_ranges:
  assumes "1 \<le> year d" "1 \<le> month d" "month d \<le> 12" "1 \<le> day d"
    "day d \<le> monthrange_days (year d) (month d)"
  shows "1 \<le> year (next_day d) \<and> 1 \<le> month (next_day d) \<and> month (next_day d) \<le> 12
     \<and> 1 \<le> day (next_day d)
     \<and> day (next_day d) \<le> monthrange_days (year (next_day d)) (month (next_day d))"
  using assms by (auto simp: next_day_def monthrange_days_def)


lemma valid_next_day:
  assumes "valid_date d" and "year (next_day d) \<le> 9999"
  shows "valid_date (next_day d)"
  using next_day_ranges [of d] assms by (simp add: valid_date_def)

lemma int_div_pred: "1 \<le> y \<Longrightarrow> (int y - 1) div int k = int ((y - 1) div k)"
  by (simp add: zdiv_int of_nat_diff)

lemma days_before_year_nat:
  assumes "1 \<le> y"
  shows "days_before_year y =
     int ((y - 1) * 365) + int ((y - 1) div 4) - int ((y - 1) div 100) + int ((y - 1) div 400)"
  using assms int_div_pred [of y 4] int_div_pred [of y 100] int_div_pred [of y 400]
  by (simp add: days_before_year_def of_nat_diff)

lemma leap_mods:
  fixes y :: nat
  shows "y mod 100 = 0 \<Longrightarrow> y mod 4 = 0" and "y mod 400 = 0 \<Longrightarrow> y mod 100 = 0"
  by presburger+

lemma days_before_year_Suc:
  assumes "1 \<le> y"
  shows "days_before_year (Suc y) = days_before_year y + 365 + (if isleap y then 1 else 0)"
proof -
  obtain n where y: "y = Suc n"
    using assms by (cases y) auto
  have a: "Suc n div 4 = n div 4 + (if Suc n mod 4 = 0 then 1 else 0)"
    by (simp add: div_Suc)
  have b: "Suc n div 100 = n div 100 + (if Suc n mod 100 = 0 then 1 else 0)"
    by (simp add: div_Suc)
  have c: "Suc n div 400 = n div 400 + (if Suc n mod 400 = 0 then 1 else 0)"
    by (simp add: div_Suc)
  have "days_before_year (Suc (Suc n)) =
      int (Suc n * 365) + int (Suc n div 4) - int (Suc n div 100) + int (Suc n div 400)"
    using days_before_year_nat [of "Suc (Suc n)"] by simp
  moreover have "days_before_year (Suc n) =
      int (n * 365) + int (n div 4) - int (n div 100) + int (n div 400)"
    using days_before_year_nat [of "Suc n"] by simp
  ultimately show ?thesis
    unfolding y isleap_def a b c
    using leap_mods [of "Suc n"] by auto
qed

lemma days_before_month_Suc:
  "1 \<le> m \<Longrightarrow> days_before_month y (Suc m) = days_before_month y m + int (monthrange_days y m)"
  by (simp add: days_before_month_def)

lemma days_in_year:
  "days_before_month y 12 + 31 = 365 + (if isleap y then 1 else 0)"
  by (simp add: days_before_month_def monthrange_days_def upt_rec)

lemma toordinal_next_day:
  assumes "valid_date d"
  shows "toordinal (next_day d) = toordinal d + 1"
proof (cases "day d < monthrange_days (year d) (month d)")
  case True
  then show ?thesis by (simp add: next_day_def toordinal_def)
next
  case False
  then have last: "day d = monthrange_days (year d) (month d)"
    using assms by (simp add: valid_date_def)
  show ?thesis
  proof (cases "month d < 12")
    case True
    moreover have "1 \<le> month d" using assms by (simp add: valid_date_def)
    ultimately show ?thesis
      using last days_before_month_Suc [of "month d" "year d"]
      by (simp add: next_day_def toordinal_def)
  next
    case False
    then have m: "month d = 12" using assms by (simp add: valid_date_def)
    have y: "1 \<le> year d" using assms by (simp add: valid_date_def)
    have "monthrange_days (year d) 12 = 31" by (simp add: monthrange_days_def)
    then show ?thesis
      using m last days_before_year_Suc [OF y] days_in_year [of "year d"]
      by (simp add: next_day_def toordinal_def days_before_month_def)
  qed
qed

lemma toordinal_add_days:
  assumes "valid_date d" and "year d < 9999" and "k \<le> 28"
  shows "valid_date (add_days k d) \<and> toordinal (add_days k d) = toordinal d + int k"
  using assms(3)
proof (induction k)
  case 0
  then show ?case using assms(1) by simp
next
  case (Suc k)
  then have v: "valid_date (add_days k d)" and o: "toordinal (add_days k d) = toordinal d + int k"
    by simp_all
  have "year (add_days (Suc k) d) \<le> Suc (year d)"
    using Suc.prems by (rule year_add_days_le)
  then have "year (next_day (add_days k d)) \<le> Suc (year d)"
    by (simp only: add_days_Suc_right)
  then have "year (next_day (add_days k d)) \<le> 9999"
    using assms(2) by linarith
  with v have "valid_date (next_day (add_days k d))"
    by (rule valid_next_day)
  moreover have "toordinal (next_day (add_days k d)) = toordinal d + int (Suc k)"
    using toordinal_next_day [OF v] o by simp
  ultimately show ?case
    by (simp only: add_days_Suc_right)
qed

lemma date_less_next_day: "date_less d (next_day d)"
  by (simp add: date_less_def date_key_def next_day_def)

lemma date_less_trans: "date_less a b \<Longrightarrow> date_less b c \<Longrightarrow> date_less a c"
  unfolding date_less_def by (rule less_trans)

lemma date_less_add_days: "date_less d (add_days (Suc k) d)"
proof (induction k)
  case 0
  show ?case by (simp add: date_less_next_day)
next
  case (Suc k)
  have "date_less (add_days (Suc k) d) (next_day (add_days (Suc k) d))"
    by (rule date_less_next_day)
  with Suc have "date_less d (next_day (add_days (Suc k) d))"
    by (rule date_less_trans)
  then show ?case
    by (simp only: add_days_Suc_right [of "Suc k"])
qed

lemma date_less_one_interval_later: "date_less d (one_interval_later i d)"
proof (cases "i = ''monthly''")
  case True
  then show ?thesis
    by (simp add: one_interval_later_def date_less_def date_key_def Let_def)
next
  case False
  have "date_less d (add_days (Suc 6) d)" by (rule date_less_add_days)
  then show ?thesis using False by (simp add: one_interval_later_def)
qed

lemmas sched_eval = run_due_recurrences_def is_due_def date_le_def date_less_def date_key_def
  advance_next_run_def add_month_def add_week_def add_days_7 next_day_def monthrange_days_def
  isleap_def recurring_tx_def new_id_def valid_date_def Let_def

subsection \<open>A pass of the scheduler\<close>

text \<open>
  The pass of \<^verbatim>\<open>run_due_recurrences\<close> in \<^verbatim>\<open>main_20250909155147.py\<close>. Let every due
  rule hold a date of the calendar before the year 9999, the last year of Python's
  dates. Then a pass answers with one entry per due rule
  and adds exactly one transaction per due rule, however long the rule has been due:
  the new transactions follow the table's order, the one of the \<open>k\<close>-th due rule is
  dated at the midnight of that rule's \<^verbatim>\<open>next_run\<close> as it was before the pass, and
  carries the rule's amount, category, description, expense flag and id. The
  \<^verbatim>\<open>next_run\<close> of every due rule moves one interval on and no other row changes:
  for \<^verbatim>\<open>monthly\<close> to the same day of the following month, clamped to that month's
  last day, so that a 31 January becomes the 28 February, or the 29 in a leap year;
  for \<^verbatim>\<open>weekly\<close> to the date whose ordinal is 7 more.
\<close>

theorem scheduler_pass:
  assumes "\<forall>r\<in>set (recurrings s). \<forall>d. r_next_run r = Some d \<and> date_le d today
             \<longrightarrow> valid_date d \<and> year d < 9999"
  shows "\<exists>txs.
      run_due_recurrences today s =
        (Inr (map (\<lambda>r. (r_id r, r_amount r, r_category r))
                (filter (is_due today) (recurrings s))),
         s\<lparr>transactions := transactions s @ txs,
           recurrings :=
             map (\<lambda>r. if is_due today r
                       then r\<lparr>r_next_run :=
                                map_option (one_interval_later (r_interval r)) (r_next_run r)\<rparr>
                       else r)
                 (recurrings s)\<rparr>)
      \<and> length txs = length (filter (is_due today) (recurrings s))
      \<and> (\<forall>k<length txs. \<exists>d.
            r_next_run (filter (is_due today) (recurrings s) ! k) = Some d
            \<and> txs ! k = recurring_tx (new_id (map tx_id (transactions s)) + k)
                           (filter (is_due today) (recurrings s) ! k) d)
      \<and> (\<forall>r\<in>set (recurrings s). \<forall>d.
            r_next_run r = Some d \<and> date_le d today \<and> r_interval r \<noteq> ''monthly'' \<longrightarrow>
            toordinal (one_interval_later (r_interval r) d) = toordinal d + 7)
      \<and> (\<forall>r\<in>set (recurrings s). \<forall>d.
            r_next_run r = Some d \<and> date_le d today \<and> r_interval r = ''monthly''
            \<and> month d = 1 \<and> day d = 31 \<longrightarrow>
            one_interval_later (r_interval r) d =
              \<lparr>year = year d, month = 2, day = (if isleap (year d) then 29 else 28)\<rparr>)"
proof -
  let ?due = "filter (is_due today) (recurrings s)"
  let ?i = "new_id (map tx_id (transactions s))"
  let ?txs = "map (\<lambda>(k, r). recurring_tx k r (the (r_next_run r))) (zip [?i..<?i + length ?due] ?due)"
  have bound: "\<forall>r\<in>set (recurrings s). \<forall>d. r_next_run r = Some d \<and> date_le d today \<longrightarrow> year d < 9999"
    using assms by blast
  have loop: "run_due_loop today ?i (recurrings s) =
     Inr (?txs,
          map (\<lambda>r. if is_due today r
                    then r\<lparr>r_next_run := map_option (one_interval_later (r_interval r)) (r_next_run r)\<rparr>
                    else r) (recurrings s),
          map (\<lambda>r. (r_id r, r_amount r, r_category r)) ?due)"
    using bound by (rule run_due_loop_result)
  have res: "run_due_recurrences today s =
        (Inr (map (\<lambda>r. (r_id r, r_amount r, r_category r)) ?due),
         s\<lparr>transactions := transactions s @ ?txs,
           recurrings :=
             map (\<lambda>r. if is_due today r
                       then r\<lparr>r_next_run :=
                                map_option (one_interval_later (r_interval r)) (r_next_run r)\<rparr>
                       else r)
                 (recurrings s)\<rparr>)"
    by (simp add: run_due_recurrences_def loop)
  have len: "length ?txs = length ?due" by simp
  have nth: "\<forall>k<length ?txs. \<exists>d. r_next_run (?due ! k) = Some d
            \<and> ?txs ! k = recurring_tx (?i + k) (?due ! k) d"
  proof (intro allI impI)
    fix k assume k: "k < length ?txs"
    then have "k < length ?due" by simp
    then have "?due ! k \<in> set ?due" by (rule nth_mem)
    then have "is_due today (?due ! k)" by (simp only: set_filter mem_Collect_eq)
    then obtain d where d: "r_next_run (?due ! k) = Some d"
      by (auto simp: is_due_def split: option.splits)
    moreover have "?txs ! k = recurring_tx (?i + k) (?due ! k) (the (r_next_run (?due ! k)))"
      using k by simp
    ultimately show "\<exists>d. r_next_run (?due ! k) = Some d
            \<and> ?txs ! k = recurring_tx (?i + k) (?due ! k) d"
      by simp
  qed
  have week: "\<forall>r\<in>set (recurrings s). \<forall>d.
            r_next_run r = Some d \<and> date_le d today \<and> r_interval r \<noteq> ''monthly'' \<longrightarrow>
            toordinal (one_interval_later (r_interval r) d) = toordinal d + 7"
  proof (intro ballI allI impI)
    fix r d
    assume r: "r \<in> set (recurrings s)"
      and h: "r_next_run r = Some d \<and> date_le d today \<and> r_interval r \<noteq> ''monthly''"
    then have "valid_date d" "year d < 9999" using assms by blast+
    then have "toordinal (add_days 7 d) = toordinal d + int 7"
      using toordinal_add_days [of d 7] by simp
    then show "toordinal (one_interval_later (r_interval r) d) = toordinal d + 7"
      using h by (simp add: one_interval_later_def)
  qed
  have jan: "\<forall>r\<in>set (recurrings s). \<forall>d.
            r_next_run r = Some d \<and> date_le d today \<and> r_interval r = ''monthly''
            \<and> month d = 1 \<and> day d = 31 \<longrightarrow>
            one_interval_later (r_interval r) d =
              \<lparr>year = year d, month = 2, day = (if isleap (year d) then 29 else 28)\<rparr>"
    by (simp add: one_interval_later_def monthrange_days_def)
  show ?thesis
    using res len nth week jan by blast
qed

theorem scheduler_pass_witness:
  "run_due_recurrences today0 store_rules =
     (Inr [(1, 900, ''rent''), (2, 10, ''sport''), (4, 50, ''bank'')],
      \<lparr>transactions =
         [tx5,
          \<lparr>tx_id = 6, tx_amount = 900, tx_category = ''rent'',
           tx_description = ''[recurring] rent'',
           tx_ts = \<lparr>dt_date = \<lparr>year = 2025, month = 1, day = 31\<rparr>, dt_usec = 0\<rparr>,
           tx_is_expense = True, tx_recurring_id = Some 1\<rparr>,
          \<lparr>tx_id = 7, tx_amount = 10, tx_category = ''sport'',
           tx_description = ''[recurring] gym'',
           tx_ts = \<lparr>dt_date = \<lparr>year = 2024, month = 12, day = 28\<rparr>, dt_usec = 0\<rparr>,
           tx_is_expense = True, tx_recurring_id = Some 2\<rparr>,
          \<lparr>tx_id = 8, tx_amount = 50, tx_category = ''bank'',
           tx_description = ''[recurring] loan'',
           tx_ts = \<lparr>dt_date = \<lparr>year = 2024, month = 1, day = 31\<rparr>, dt_usec = 0\<rparr>,
           tx_is_expense = True, tx_recurring_id = Some 4\<rparr>],
       budgets = [], goals = [],
       recurrings =
        [\<lparr>r_id = 1, r_description = ''rent'', r_amount = 900, r_category = ''rent'',
          r_is_expense = True, r_interval = ''monthly'',
          r_next_run = Some \<lparr>year = 2025, month = 2, day = 28\<rparr>\<rparr>,
         \<lparr>r_id = 2, r_description = ''gym'', r_amount = 10, r_category = ''sport'',
          r_is_expense = True, r_interval = ''weekly'',
          r_next_run = Some \<lparr>year = 2025, month = 1, day = 4\<rparr>\<rparr>,
         \<lparr>r_id = 3, r_description = ''wage'', r_amount = 2000, r_category = ''job'',
          r_is_expense = False, r_interval = ''monthly'',
          r_next_run = Some \<lparr>year = 2025, month = 9, day = 30\<rparr>\<rparr>,
         \<lparr>r_id = 4, r_description = ''loan'', r_amount = 50, r_category = ''bank'',
          r_is_expense = True, r_interval = ''monthly'',
          r_next_run = Some \<lparr>year = 2024, month = 2, day = 29\<rparr>\<rparr>]\<rparr>)
   \<and> toordinal \<lparr>year = 2025, month = 1, day = 4\<rparr>
       = toordinal \<lparr>year = 2024, month = 12, day = 28\<rparr> + 7"
proof -
  have h: "\<forall>r\<in>set (recurrings store_rules). \<forall>d. r_next_run r = Some d \<and> date_le d today0
             \<longrightarrow> valid_date d \<and> year d < 9999"
    by (simp add: store_rules_def today0_def sched_eval)
  have w: "one_interval_later ''weekly'' \<lparr>year = 2024, month = 12, day = 28\<rparr> =
      \<lparr>year = 2025, month = 1, day = 4\<rparr>"
    by (simp add: one_interval_later_def sched_eval)
  from scheduler_pass [OF h] obtain txs where
    res: "run_due_recurrences today0 store_rules =
        (Inr (map (\<lambda>r. (r_id r, r_amount r, r_category r))
                (filter (is_due today0) (recurrings store_rules))),
         store_rules\<lparr>transactions := transactions store_rules @ txs,
           recurrings :=
             map (\<lambda>r. if is_due today0 r
                       then r\<lparr>r_next_run :=
                                map_option (one_interval_later (r_interval r)) (r_next_run r)\<rparr>
                       else r)
                 (recurrings store_rules)\<rparr>)"
    and week: "\<forall>r\<in>set (recurrings store_rules). \<forall>d.
            r_next_run r = Some d \<and> date_le d today0 \<and> r_interval r \<noteq> ''monthly'' \<longrightarrow>
            toordinal (one_interval_later (r_interval r) d) = toordinal d + 7"
    by blast
  have "toordinal (one_interval_later ''weekly'' \<lparr>year = 2024, month = 12, day = 28\<rparr>)
      = toordinal \<lparr>year = 2024, month = 12, day = 28\<rparr> + 7"
    using week by (simp add: store_rules_def today0_def date_le_def date_key_def)
  then have ord: "toordinal \<lparr>year = 2025, month = 1, day = 4\<rparr>
       = toordinal \<lparr>year = 2024, month = 12, day = 28\<rparr> + 7"
    by (simp only: w)
  have "run_due_recurrences today0 store_rules =
     (Inr [(1, 900, ''rent''), (2, 10, ''sport''), (4, 50, ''bank'')],
      \<lparr>transactions =
         [tx5,
          \<lparr>tx_id = 6, tx_amount = 900, tx_category = ''rent'',
           tx_description = ''[recurring] rent'',
           tx_ts = \<lparr>dt_date = \<lparr>year = 2025, month = 1, day = 31\<rparr>, dt_usec = 0\<rparr>,
           tx_is_expense = True, tx_recurring_id = Some 1\<rparr>,
          \<lparr>tx_id = 7, tx_amount = 10, tx_category = ''sport'',
           tx_description = ''[recurring] gym'',
           tx_ts = \<lparr>dt_date = \<lparr>year = 2024, month = 12, day = 28\<rparr>, dt_usec = 0\<rparr>,
           tx_is_expense = True, tx_recurring_id = Some 2\<rparr>,
          \<lparr>tx_id = 8, tx_amount = 50, tx_category = ''bank'',
           tx_description = ''[recurring] loan'',
           tx_ts = \<lparr>dt_date = \<lparr>year = 2024, month = 1, day = 31\<rparr>, dt_usec = 0\<rparr>,
           tx_is_expense = True, tx_recurring_id = Some 4\<rparr>],
       budgets = [], goals = [],
       recurrings =
        [\<lparr>r_id = 1, r_description = ''rent'', r_amount = 900, r_category = ''rent'',
          r_is_expense = True, r_interval = ''monthly'',
          r_next_run = Some \<lparr>year = 2025, month = 2, day = 28\<rparr>\<rparr>,
         \<lparr>r_id = 2, r_description = ''gym'', r_amount = 10, r_category = ''sport'',
          r_is_expense = True, r_interval = ''weekly'',
          r_next_run = Some \<lparr>year = 2025, month = 1, day = 4\<rparr>\<rparr>,
         \<lparr>r_id = 3, r_description = ''wage'', r_amount = 2000, r_category = ''job'',
          r_is_expense = False, r_interval = ''monthly'',
          r_next_run = Some \<lparr>year = 2025, month = 9, day = 30\<rparr>\<rparr>,
         \<lparr>r_id = 4, r_description = ''loan'', r_amount = 50, r_category = ''bank'',
          r_is_expense = True, r_interval = ''monthly'',
          r_next_run = Some \<lparr>year = 2024, month = 2, day = 29\<rparr>\<rparr>]\<rparr>)"
    by (simp add: store_rules_def today0_def tx5_def sched_eval)
  with ord show ?thesis by simp
qed

subsection \<open>The date of the next run after a pass\<close>

lemma valid_one_interval_later:
  assumes "valid_date d" and "year d < 9999"
  shows "valid_date (one_interval_later i d)"
proof (cases "i = ''monthly''")
  case True
  then show ?thesis
    using assms
    by (auto simp: one_interval_later_def valid_date_def monthrange_days_def Let_def)
next
  case False
  have "valid_date (add_days 7 d)"
    using toordinal_add_days [OF assms, of 7] by simp
  then show ?thesis using False by (simp add: one_interval_later_def)
qed

text \<open>
  Claim C8, as amended. Let every rule that is due when a pass of
  \<^verbatim>\<open>run_due_recurrences\<close> of \<^verbatim>\<open>main_20250909155147.py\<close> begins hold a date of the
  calendar before the year 9999. After the pass every such rule holds as its
  \<^verbatim>\<open>next_run\<close> the date exactly one interval after the one it held; this is again a
  date of the calendar, and it is strictly later than the one it held. The pass
  moves the date by one interval only, so for a rule that was due for longer than
  one interval the new date still lies before the current date. The claim speaks of
  this scheduler only: what \<^verbatim>\<open>run_due\<close> of \<^verbatim>\<open>main_20250909235636.py\<close> does to
  \<^verbatim>\<open>next_run\<close> is the subject of claim C2.
\<close>

theorem next_run_after_pass:
  assumes "\<forall>r\<in>set (recurrings s). \<forall>d. r_next_run r = Some d \<and> date_le d today
             \<longrightarrow> valid_date d \<and> year d < 9999"
  shows "\<forall>k<length (recurrings s). \<forall>d.
           r_next_run (recurrings s ! k) = Some d \<and> date_le d today \<longrightarrow>
           r_next_run (recurrings (snd (run_due_recurrences today s)) ! k) =
             Some (one_interval_later (r_interval (recurrings s ! k)) d)
           \<and> valid_date (one_interval_later (r_interval (recurrings s ! k)) d)
           \<and> date_less d (one_interval_later (r_interval (recurrings s ! k)) d)"
proof (intro allI impI)
  fix k d
  assume k: "k < length (recurrings s)"
    and d: "r_next_run (recurrings s ! k) = Some d \<and> date_le d today"
  have due: "is_due today (recurrings s ! k)"
    using d by (simp add: is_due_def)
  have bound: "\<forall>r\<in>set (recurrings s). \<forall>d. r_next_run r = Some d \<and> date_le d today
             \<longrightarrow> year d < 9999"
    using assms by blast
  have "recurrings s ! k \<in> set (recurrings s)"
    using k by (rule nth_mem)
  then have v: "valid_date d" "year d < 9999"
    using assms d by blast+
  have "recurrings (snd (run_due_recurrences today s)) =
      map (\<lambda>r. if is_due today r
                then r\<lparr>r_next_run := map_option (one_interval_later (r_interval r)) (r_next_run r)\<rparr>
                else r) (recurrings s)"
    using run_due_loop_result [OF bound, of "new_id (map tx_id (transactions s))"]
    by (simp add: run_due_recurrences_def)
  then have "r_next_run (recurrings (snd (run_due_recurrences today s)) ! k) =
      Some (one_interval_later (r_interval (recurrings s ! k)) d)"
    using k d due by simp
  then show "r_next_run (recurrings (snd (run_due_recurrences today s)) ! k) =
             Some (one_interval_later (r_interval (recurrings s ! k)) d)
           \<and> valid_date (one_interval_later (r_interval (recurrings s ! k)) d)
           \<and> date_less d (one_interval_later (r_interval (recurrings s ! k)) d)"
    using date_less_one_interval_later valid_one_interval_later [OF v] by simp
qed

theorem next_run_after_pass_witness:
  "r_next_run (recurrings (snd (run_due_recurrences today0 store_rules)) ! 0) =
     Some \<lparr>year = 2025, month = 2, day = 28\<rparr>
   \<and> valid_date \<lparr>year = 2025, month = 2, day = 28\<rparr>
   \<and> date_less \<lparr>year = 2025, month = 1, day = 31\<rparr> \<lparr>year = 2025, month = 2, day = 28\<rparr>"
proof -
  have h: "\<forall>r\<in>set (recurrings store_rules). \<forall>d. r_next_run r = Some d \<and> date_le d today0
             \<longrightarrow> valid_date d \<and> year d < 9999"
    by (simp add: store_rules_def today0_def sched_eval)
  have m: "one_interval_later ''monthly'' \<lparr>year = 2025, month = 1, day = 31\<rparr> =
      \<lparr>year = 2025, month = 2, day = 28\<rparr>"
    by (simp add: one_interval_later_def sched_eval)
  have "0 < length (recurrings store_rules)"
    "r_next_run (recurrings store_rules ! 0) = Some \<lparr>year = 2025, month = 1, day = 31\<rparr>
       \<and> date_le \<lparr>year = 2025, month = 1, day = 31\<rparr> today0"
    "r_interval (recurrings store_rules ! 0) = ''monthly''"
    by (simp_all add: store_rules_def today0_def date_le_def date_key_def)
  with next_run_after_pass [OF h] m show ?thesis
    by (metis (no_types, lifting))
qed

text \<open>The weekly rule of the sample was due since 28 December 2024; after a pass
  on 9 September 2025 its next run is the 4 January 2025, months in the past.\<close>

theorem next_run_in_past_counterexample:
  "r_next_run (recurrings (snd (run_due_recurrences today0 store_rules)) ! 1) =
     Some \<lparr>year = 2025, month = 1, day = 4\<rparr>
   \<and> date_less \<lparr>year = 2025, month = 1, day = 4\<rparr> today0"
  by (simp add: store_rules_def today0_def tx5_def sched_eval)

subsection \<open>The budget warning after an addition\<close>

lemma add_branch_added:
  assumes "add_branch e0 amt cat descr dt now s = (Inr (Added i a c e w), s')"
  shows "w = budget_warning s' c now \<and> c = cat \<and> e = e0
     \<and> transactions s' = transactions s @
         [\<lparr>tx_id = i, tx_amount = a, tx_category = c, tx_description = descr, tx_ts = dt,
           tx_is_expense = e, tx_recurring_id = None\<rparr>]
     \<and> budgets s' = budgets s"
  using assms by (auto simp: add_branch_def Let_def split: option.splits)


subsection \<open>The sign of the stored amounts\<close>

lemma extract_amount_nonneg: "extract_amount text = Some a \<Longrightarrow> 0 \<le> a"
  by (auto simp: extract_amount_def float_of_match_def intro!: round53_nonneg)

lemma parse_command_amount_nonneg:
  assumes "parse_command utcnow text = P_add (Some a) c d t
           \<or> parse_command utcnow text = P_add_income (Some a) c d t"
  shows "0 \<le> a"
proof -
  from assms have "extract_amount (lower text) = Some a"
    by (auto simp: parse_command_def Let_def split: if_splits)
  then show ?thesis by (rule extract_amount_nonneg)
qed

lemma add_branch_nonneg:
  assumes "list_all (\<lambda>r. 0 \<le> tx_amount r) (transactions s)"
    and "\<And>a. amt = Some a \<Longrightarrow> 0 \<le> a"
  shows "list_all (\<lambda>r. 0 \<le> tx_amount r)
           (transactions (snd (add_branch e amt cat descr dt now s)))"
  using assms by (cases amt) (simp_all add: add_branch_def Let_def)

lemma list_all_filter: "list_all P xs \<Longrightarrow> list_all P (filter Q xs)"
  by (induction xs) auto

lemma list_all_update_first:
  "list_all Q xs \<Longrightarrow> (\<And>x. Q x \<Longrightarrow> Q (f x)) \<Longrightarrow> list_all Q (update_first P f xs)"
  by (induction xs) auto

lemma handle_command_nonneg:
  assumes "list_all (\<lambda>r. 0 \<le> tx_amount r) (transactions s)"
  shows "list_all (\<lambda>r. 0 \<le> tx_amount r)
           (transactions (snd (handle_command payload utcnow now s)))"
proof (cases payload)
  case None
  then show ?thesis using assms by (simp add: handle_command_def)
next
  case (Some cmd)
  show ?thesis
  proof (cases "cmd = []")
    case True
    then show ?thesis using assms Some by (simp add: handle_command_def)
  next
    case False
    show ?thesis
    proof (cases "parse_command utcnow cmd")
      case (P_add amt c d t)
      then have "\<And>a. amt = Some a \<Longrightarrow> 0 \<le> a"
        using parse_command_amount_nonneg [of utcnow cmd _ c d t] by simp
      then show ?thesis
        using Some False P_add add_branch_nonneg [OF assms, of amt True c d t now]
        by (simp add: handle_command_def)
    next
      case (P_add_income amt c d t)
      then have "\<And>a. amt = Some a \<Longrightarrow> 0 \<le> a"
        using parse_command_amount_nonneg [of utcnow cmd _ c d t] by simp
      then show ?thesis
        using Some False P_add_income add_branch_nonneg [OF assms, of amt False c d t now]
        by (simp add: handle_command_def)
    next
      case P_delete
      then show ?thesis
        using Some False assms
        by (simp add: handle_command_def Let_def list_all_filter split: option.split)
    qed (use Some False assms in \<open>simp_all add: handle_command_def Let_def split: option.split\<close>)
  qed
qed

lemma edit_transaction_nonneg:
  assumes "list_all (\<lambda>r. 0 \<le> tx_amount r) (transactions s)" and "0 \<le> e_amount p"
  shows "list_all (\<lambda>r. 0 \<le> tx_amount r) (transactions (snd (edit_transaction p s)))"
  using assms
  by (simp add: edit_transaction_def list_all_update_first split: option.split)

lemma handle_command_rows:
  "(\<exists>tx. transactions (snd (handle_command payload utcnow now s)) = transactions s @ [tx])
   \<or> (\<exists>n. transactions (snd (handle_command payload utcnow now s)) =
            filter (\<lambda>r. tx_id r \<noteq> n) (transactions s))
   \<or> transactions (snd (handle_command payload utcnow now s)) = transactions s"
proof (cases payload)
  case None
  then show ?thesis by (simp add: handle_command_def)
next
  case (Some cmd)
  show ?thesis
  proof (cases "cmd = []")
    case True
    then show ?thesis using Some by (simp add: handle_command_def)
  next
    case False
    show ?thesis
    proof (cases "parse_command utcnow cmd")
      case (P_add amt c d t)
      then show ?thesis
        using Some False by (cases amt) (simp_all add: handle_command_def add_branch_def Let_def)
    next
      case (P_add_income amt c d t)
      then show ?thesis
        using Some False by (cases amt) (simp_all add: handle_command_def add_branch_def Let_def)
    next
      case P_delete
      then show ?thesis
        using Some False
        by (auto simp add: handle_command_def Let_def split: option.split)
    qed (use Some False in \<open>simp_all add: handle_command_def Let_def split: option.split\<close>)
  qed
qed

text \<open>
  Claim C9, as amended. The amount the extractor finds in a text is never
  negative, and it is 0 for a numeral of zeros. The command endpoint keeps every
  stored amount at least 0 if it was so before, and changes the amount of no row:
  it leaves the transactions as they were, appends one row, or removes the rows of
  one id. The edit endpoint stores the amount it is given without a check, so it
  keeps the stored amounts at least 0 when the given amount is at least 0.
\<close>

theorem stored_amounts_nonnegative:
  "(extract_amount text = Some a \<longrightarrow> 0 \<le> a)
   \<and> (list_all (\<lambda>r. 0 \<le> tx_amount r) (transactions s) \<longrightarrow>
        list_all (\<lambda>r. 0 \<le> tx_amount r)
          (transactions (snd (handle_command payload utcnow now s))))
   \<and> (list_all (\<lambda>r. 0 \<le> tx_amount r) (transactions s) \<and> 0 \<le> e_amount p \<longrightarrow>
        list_all (\<lambda>r. 0 \<le> tx_amount r) (transactions (snd (edit_transaction p s))))
   \<and> ((\<exists>tx. transactions (snd (handle_command payload utcnow now s)) = transactions s @ [tx])
      \<or> (\<exists>n. transactions (snd (handle_command payload utcnow now s)) =
               filter (\<lambda>r. tx_id r \<noteq> n) (transactions s))
      \<or> transactions (snd (handle_command payload utcnow now s)) = transactions s)"
proof (intro conjI impI)
  assume "extract_amount text = Some a"
  then show "0 \<le> a" by (rule extract_amount_nonneg)
next
  assume "list_all (\<lambda>r. 0 \<le> tx_amount r) (transactions s)"
  then show "list_all (\<lambda>r. 0 \<le> tx_amount r)
      (transactions (snd (handle_command payload utcnow now s)))"
    by (rule handle_command_nonneg)
next
  assume "list_all (\<lambda>r. 0 \<le> tx_amount r) (transactions s) \<and> 0 \<le> e_amount p"
  then show "list_all (\<lambda>r. 0 \<le> tx_amount r) (transactions (snd (edit_transaction p s)))"
    using edit_transaction_nonneg by blast
next
  show "(\<exists>tx. transactions (snd (handle_command payload utcnow now s)) = transactions s @ [tx])
      \<or> (\<exists>n. transactions (snd (handle_command payload utcnow now s)) =
               filter (\<lambda>r. tx_id r \<noteq> n) (transactions s))
      \<or> transactions (snd (handle_command payload utcnow now s)) = transactions s"
    by (rule handle_command_rows)
qed

theorem stored_amounts_nonnegative_witness:
  "extract_amount ''spent 42.50 on groceries'' = Some (85 / 2) \<and> (0::rat) \<le> 85 / 2
   \<and> list_all (\<lambda>r. 0 \<le> tx_amount r)
        (transactions (snd (handle_command (Some ''spent 42.50 on groceries'') t0 t0 store5)))
   \<and> list_all (\<lambda>r. 0 \<le> tx_amount r)
        (transactions (snd (edit_transaction
           \<lparr>e_id = 5, e_description = ''lunch'', e_amount = 12, e_is_expense = True\<rparr> store5)))"
proof -
  have a: "extract_amount ''spent 42.50 on groceries'' = Some (85 / 2)"
    by (simp add: text_eval double_42_5)
  have b: "list_all (\<lambda>r. 0 \<le> tx_amount r) (transactions store5)"
    by (simp add: store5_def tx5_def)
  have c: "0 \<le> e_amount \<lparr>e_id = 5, e_description = ''lunch'', e_amount = 12, e_is_expense = True\<rparr>"
    by simp
  show ?thesis
    using a b c
      stored_amounts_nonnegative [of "''spent 42.50 on groceries''" "85 / 2" store5
        "Some ''spent 42.50 on groceries''" t0 t0
        "\<lparr>e_id = 5, e_description = ''lunch'', e_amount = 12, e_is_expense = True\<rparr>"]
    by simp
qed

text \<open>The command \<^verbatim>\<open>spent 0 on food\<close> stores a transaction of amount 0, and an
  edit with the amount -3 stores -3.\<close>

theorem zero_amount_counterexample:
  "map tx_amount
     (transactions (snd (handle_command (Some ''spent 0 on food'') t0 t0 empty_store))) = [0]
   \<and> map tx_amount
       (transactions (snd (edit_transaction
          \<lparr>e_id = 5, e_description = ''refund'', e_amount = - 3, e_is_expense = True\<rparr> store5))) =
     [- 3]"
  by (simp add: text_eval store_eval edit_transaction_def store5_def tx5_def round53_0)

subsection \<open>The command endpoint of the later snapshot\<close>

text \<open>The answer to an addition without an amount and the read-only intents are the
  same in the command endpoint of \<^verbatim>\<open>main_20250909235636.py\<close>.\<close>

lemma need_amount_without_numeral_235636:
  assumes "intent (parse_command_235636 utcnow text) \<in> {''add'', ''add_income''}"
    and "list_all (\<lambda>c. \<not> is_digit c) text"
  shows "handle_command_235636 text utcnow s =
           (Inr (Need_amount (lower text)
                   (if intent (parse_command_235636 utcnow text) = ''add''
                    then ''expense'' else ''income'')),
            s)"
proof -
  have amt: "extract_amount (lower text) = None"
    using assms(2) by (rule extract_amount_no_digit)
  from assms(1) consider
      (expense) a c d t where "parse_command_235636 utcnow text = P_add a c d t"
    | (income) a c d t where "parse_command_235636 utcnow text = P_add_income a c d t"
    by (cases "parse_command_235636 utcnow text") simp_all
  then show ?thesis
  proof cases
    case expense
    then have "parse_command_235636 utcnow text = P_add None ''expense'' (lower text) utcnow"
      using amt by (auto simp add: parse_command_235636_def Let_def split: if_splits)
    then show ?thesis
      by (simp add: handle_command_235636_def add_branch_235636_def)
  next
    case income
    then have "parse_command_235636 utcnow text =
        P_add_income None ''income'' (lower text) utcnow"
      using amt by (auto simp add: parse_command_235636_def Let_def split: if_splits)
    then show ?thesis
      by (simp add: handle_command_235636_def add_branch_235636_def)
  qed
qed

lemma read_only_intents_235636:
  assumes "intent (parse_command_235636 utcnow text) \<in> {''summary'', ''list'', ''get_tx'', ''unknown''}"
  shows "snd (handle_command_235636 text utcnow s) = s"
proof -
  from assms consider "parse_command_235636 utcnow text = P_summary"
    | "parse_command_235636 utcnow text = P_list"
    | n where "parse_command_235636 utcnow text = P_get_tx n"
    | "parse_command_235636 utcnow text = P_unknown"
    by (cases "parse_command_235636 utcnow text") simp_all
  then show ?thesis
    by cases (simp_all add: handle_command_235636_def Let_def)
qed

subsection \<open>The budget endpoint of the later snapshot\<close>

text \<open>
  Claim C5, in \<^verbatim>\<open>main_20250909235636.py\<close>. Two calls of its \<^verbatim>\<open>create_budget\<close> for
  the category \<^verbatim>\<open>food\<close>, with the monthly amounts 100 and 250, leave two rows of
  that category, with the ids 1 and 2 and the amounts 100 and 250; each call
  answers with the row it inserted, and nothing in an answer tells a creation from
  an update.
\<close>

theorem create_budget_235636_twice:
  "create_budget_235636 ''food'' 100 [] =
     (\<lparr>bb_id = 1, bb_category = ''food'', bb_monthly_amount = 100\<rparr>,
      [\<lparr>bb_id = 1, bb_category = ''food'', bb_monthly_amount = 100\<rparr>])
   \<and> create_budget_235636 ''food'' 250 (snd (create_budget_235636 ''food'' 100 [])) =
     (\<lparr>bb_id = 2, bb_category = ''food'', bb_monthly_amount = 250\<rparr>,
      [\<lparr>bb_id = 1, bb_category = ''food'', bb_monthly_amount = 100\<rparr>,
       \<lparr>bb_id = 2, bb_category = ''food'', bb_monthly_amount = 250\<rparr>])"
  by (simp add: create_budget_235636_def new_id_def Let_def)

subsection \<open>The scheduler of the later snapshot\<close>

text \<open>
  Claim C2, in \<^verbatim>\<open>main_20250909235636.py\<close>. A pass of its \<^verbatim>\<open>run_due\<close> on 9 September
  2025 over a monthly rule that was due on 31 January 2025 creates one transaction,
  dated at the clock of the request and not at the 31 January, and sets the rule's
  \<^verbatim>\<open>next_run\<close> to 1 January 2025, the first day of the month it was in, not to 28
  February. A pass over a due weekly rule raises a \<^verbatim>\<open>NameError\<close>; no transaction is
  created and the rule stays due.
\<close>

theorem run_due_235636_naive:
  "run_due_235636 t0 [tx5] [rent_235636] =
     (Inr [(6, ''rent'')],
      [tx5,
       \<lparr>tx_id = 6, tx_amount = 900, tx_category = ''rent'', tx_description = ''rent'',
        tx_ts = t0, tx_is_expense = True, tx_recurring_id = None\<rparr>],
      [\<lparr>q_id = 1, q_description = ''rent'', q_amount = 900, q_category = ''rent'',
        q_interval = ''monthly'',
        q_next_run = \<lparr>dt_date = \<lparr>year = 2025, month = 1, day = 1\<rparr>, dt_usec = 0\<rparr>\<rparr>])
   \<and> run_due_235636 t0 [tx5] [gym_235636] = (Inl NameError, [tx5], [gym_235636])"
  by (simp add: run_due_235636_def run_due_tx_def rent_235636_def gym_235636_def new_id_def
        tx5_def t0_def datetime_le_def datetime_key_def date_key_def)

end
